theory Spec2Isabelle
  imports Main "HOL-Library.Word"
begin

unbundle bit_operations_syntax

section \<open>Format-version oracle\<close>

text \<open>
  The version tag of a loaded snapshot: a major revision and an optional minor revision.
  The C++ declaration (\<open>SavegameTypeVersion\<close>) and the oracle itself
  (\<open>IsSavegameVersionBefore\<close>) live in a header that is not part of the sources at hand;
  only their call sites in \<open>afterload.cpp\<close> and \<open>animated_tile_sl.cpp\<close> are.
\<close>

record SavegameTypeVersion =
  major :: nat
  minor :: "nat option"

text \<open>Modelled from the spec: an absent minor revision is treated as minor 0.\<close>

definition minor_of :: "SavegameTypeVersion \<Rightarrow> nat" where
  "minor_of stv = (case minor stv of None \<Rightarrow> 0 | Some k \<Rightarrow> k)"

text \<open>
  Modelled from the spec: the oracle \<open>isOlderThan(snapshotVersion, thresholdMajor,
  thresholdMinor = 0)\<close>, whose C++ body (\<open>IsSavegameVersionBefore\<close>) is missing from the
  sources. It compares the major revision first and the minor revision second.
\<close>

definition IsSavegameVersionBefore :: "SavegameTypeVersion \<Rightarrow> nat \<Rightarrow> nat \<Rightarrow> bool" where
  "IsSavegameVersionBefore stv thr_major thr_minor =
     (if major stv < thr_major then True
      else if thr_major < major stv then False
      else minor_of stv < thr_minor)"

text \<open>The order the oracle induces on version tags: \<open>a\<close> is older than \<open>b\<close>.\<close>

definition older :: "SavegameTypeVersion \<Rightarrow> SavegameTypeVersion \<Rightarrow> bool" where
  "older a b = IsSavegameVersionBefore a (major b) (minor_of b)"

section \<open>Load failures\<close>

text \<open>
  \<open>StringID\<close>s that the migration pass hands to \<open>SlException\<close> and \<open>ShowErrorMessage\<close>.
\<close>

datatype StringID =
    STR_NETWORK_ERROR_CLIENT_NEWGRF_MISMATCH
  | STR_ERROR_NO_TOWN_IN_SCENARIO
  | STR_ERROR_TOO_MANY_OBJECTS
  | STR_NEWGRF_COMPATIBLE_LOAD_WARNING
  | STR_NEWGRF_DISABLED_WARNING

text \<open>
  The exceptions of \<open>saveload_error.h\<close> as values. \<open>OutOfBounds\<close> is not an exception of
  the program: it marks what the C++ leaves undefined or stops on (an access outside an
  array, a read past the end of the stream, a failed \<open>assert\<close>), so that no theorem below
  silently relies on such a step.
\<close>

datatype LoadError =
    SlCorrupt string
  | SlException StringID
  | OutOfBounds

section \<open>The map array\<close>

datatype TileType =
    MP_CLEAR | MP_RAILWAY | MP_ROAD | MP_HOUSE | MP_TREES | MP_STATION
  | MP_WATER | MP_VOID | MP_INDUSTRY | MP_TUNNELBRIDGE | MP_OBJECT

datatype WaterClass =
    WATER_CLASS_SEA | WATER_CLASS_CANAL | WATER_CLASS_RIVER | WATER_CLASS_INVALID

text \<open>
  One cell of \<open>_m[]\<close>. The accessors of the map headers (\<open>GetTileType\<close>, \<open>IsTileFlat\<close>,
  \<open>IsCoast\<close>, \<open>IsLock\<close>, \<open>IsDock\<close>, \<open>IsBuoy\<close>, \<open>GetWaterClass\<close>, \<open>GetRailGroundType\<close>,
  \<open>GetObjectType\<close>) are not in the sources at hand, so a cell carries what each of them
  returns as a field; \<open>m2\<close> and \<open>m4\<close> are the raw fields the pass reads and writes itself.
\<close>

record Tile =
  tile_type :: TileType
  is_flat :: bool
  is_coast :: bool
  is_lock :: bool
  is_dock :: bool
  is_buoy :: bool
  water_class :: WaterClass
  rail_ground :: nat
  object_type :: nat
  m2 :: "16 word"
  m4 :: "8 word"

record Map =
  MapSizeX :: nat
  MapSizeY :: nat
  tiles :: "Tile list"

text \<open>
  Enum values of headers outside the sources, taken as parameters of the model.
\<close>

record Enums =
  RAIL_GROUND_WATER :: nat
  TREE_GROUND_SHORE :: "16 word"
  OBJECT_HQ :: nat
  OBJECT_STATUE :: nat

definition GB :: "'a::len word \<Rightarrow> nat \<Rightarrow> nat \<Rightarrow> 'a word" where
  "GB x s n = take_bit n (drop_bit s x)"

definition MapSize :: "Map \<Rightarrow> nat" where
  "MapSize m = MapSizeX m * MapSizeY m"

definition MapMaxX :: "Map \<Rightarrow> nat" where
  "MapMaxX m = MapSizeX m - 1"

definition MapMaxY :: "Map \<Rightarrow> nat" where
  "MapMaxY m = MapSizeY m - 1"

text \<open>
  Modelled from the spec: a cell is addressed by a flattened tile index of a 2D grid, so
  the column is the index modulo the row length and the row is the quotient.
\<close>

definition TileX :: "Map \<Rightarrow> nat \<Rightarrow> nat" where
  "TileX m t = t mod MapSizeX m"

definition TileY :: "Map \<Rightarrow> nat \<Rightarrow> nat" where
  "TileY m t = t div MapSizeX m"

definition TileXY :: "Map \<Rightarrow> nat \<Rightarrow> nat \<Rightarrow> nat" where
  "TileXY m x y = y * MapSizeX m + x"

datatype DiagDirection = DIAGDIR_NE | DIAGDIR_SE | DIAGDIR_SW | DIAGDIR_NW

text \<open>\<open>for (dir = DIAGDIR_BEGIN; dir < DIAGDIR_END; dir++)\<close>\<close>

definition all_diagdirs :: "DiagDirection list" where
  "all_diagdirs = [DIAGDIR_NE, DIAGDIR_SE, DIAGDIR_SW, DIAGDIR_NW]"

text \<open>
  Modelled from the spec: the four 4-connected neighbours of a cell, as (dx, dy) steps in
  the order of the \<open>DiagDirection\<close> enum; the offset table itself is outside the sources.
\<close>

fun TileOffsByDiagDir :: "DiagDirection \<Rightarrow> int \<times> int" where
  "TileOffsByDiagDir DIAGDIR_NE = (-1, 0)"
| "TileOffsByDiagDir DIAGDIR_SE = (0, 1)"
| "TileOffsByDiagDir DIAGDIR_SW = (1, 0)"
| "TileOffsByDiagDir DIAGDIR_NW = (0, -1)"

definition TileAddByDiagDir :: "Map \<Rightarrow> nat \<Rightarrow> DiagDirection \<Rightarrow> int" where
  "TileAddByDiagDir m t dir =
     (case TileOffsByDiagDir dir of (dx, dy) \<Rightarrow> int t + (dy * int (MapSizeX m) + dx))"

text \<open>Reading \<open>_m[i]\<close>; outside the array there is no cell.\<close>

definition tile_at :: "Map \<Rightarrow> int \<Rightarrow> Tile option" where
  "tile_at m i = (if 0 \<le> i \<and> nat i < length (tiles m) then Some (tiles m ! nat i) else None)"

definition GetWaterClass :: "Map \<Rightarrow> nat \<Rightarrow> WaterClass" where
  "GetWaterClass m t = water_class (tiles m ! t)"

definition SetWaterClass :: "Map \<Rightarrow> nat \<Rightarrow> WaterClass \<Rightarrow> Map" where
  "SetWaterClass m t wc = m\<lparr>tiles := (tiles m)[t := (tiles m ! t)\<lparr>water_class := wc\<rparr>]\<rparr>"

section \<open>GuessWaterClass\<close>

text \<open>The three local flags of \<open>GuessWaterClass\<close>.\<close>

record WaterFlags =
  has_water :: bool
  has_canal :: bool
  has_river :: bool

definition no_flags :: WaterFlags where
  "no_flags = \<lparr>has_water = False, has_canal = False, has_river = False\<rparr>"

text \<open>The body of the loop: the \<open>switch (GetTileType(neighbour))\<close>.\<close>

definition scan_neighbour :: "Enums \<Rightarrow> Tile \<Rightarrow> WaterFlags \<Rightarrow> LoadError + WaterFlags" where
  "scan_neighbour K n f =
     (case tile_type n of
        MP_WATER \<Rightarrow>
          if is_coast n then Inr (f\<lparr>has_water := True\<rparr>)
          else if \<not> is_lock n then
            (case water_class n of
               WATER_CLASS_SEA \<Rightarrow> Inr (f\<lparr>has_water := True\<rparr>)
             | WATER_CLASS_CANAL \<Rightarrow> Inr (f\<lparr>has_canal := True\<rparr>)
             | WATER_CLASS_RIVER \<Rightarrow> Inr (f\<lparr>has_river := True\<rparr>)
             | WATER_CLASS_INVALID \<Rightarrow> Inl (SlCorrupt ''Invalid water class for tile''))
          else Inr f
      | MP_RAILWAY \<Rightarrow>
          Inr (f\<lparr>has_water := has_water f \<or> rail_ground n = RAIL_GROUND_WATER K\<rparr>)
      | MP_TREES \<Rightarrow>
          Inr (f\<lparr>has_water := has_water f \<or> GB (m2 n) 4 2 = TREE_GROUND_SHORE K\<rparr>)
      | _ \<Rightarrow> Inr f)"

text \<open>The loop over the four directions, stopping at the first exception.\<close>

fun scan_dirs ::
  "Enums \<Rightarrow> Map \<Rightarrow> nat \<Rightarrow> DiagDirection list \<Rightarrow> WaterFlags \<Rightarrow> LoadError + WaterFlags"
where
  "scan_dirs K m t [] f = Inr f"
| "scan_dirs K m t (dir # dirs) f =
     (case tile_at m (TileAddByDiagDir m t dir) of
        None \<Rightarrow> Inl OutOfBounds
      | Some n \<Rightarrow>
          (case scan_neighbour K n f of
             Inl e \<Rightarrow> Inl e
           | Inr f' \<Rightarrow> scan_dirs K m t dirs f'))"

text \<open>
  The border test of \<open>GuessWaterClass\<close>:
  \<open>TileX(t) == 0 || TileY(t) == 0 || TileX(t) == MapMaxX() - 1 || TileY(t) == MapMaxY() - 1\<close>.
  The subtraction is unsigned in the C++; over the integers \<open>MapMaxX() - 1\<close> of a map one
  cell wide is \<open>-1\<close>, which no column equals, as no column equals the wrapped value.
\<close>

definition at_border :: "Map \<Rightarrow> nat \<Rightarrow> bool" where
  "at_border m t =
     (TileX m t = 0 \<or> TileY m t = 0
      \<or> int (TileX m t) = int (MapMaxX m) - 1 \<or> int (TileY m t) = int (MapMaxY m) - 1)"

text \<open>
  \<open>GuessWaterClass(t, allow_invalid)\<close>. \<open>MarkTileDirtyByTile\<close> only queues a repaint and is
  left out.
\<close>

definition GuessWaterClass :: "Enums \<Rightarrow> Map \<Rightarrow> nat \<Rightarrow> bool \<Rightarrow> LoadError + Map" where
  "GuessWaterClass K m t allow_invalid =
     (case tile_at m (int t) of
        None \<Rightarrow> Inl OutOfBounds
      | Some cell \<Rightarrow>
          if \<not> is_flat cell then
            (if allow_invalid then Inr (SetWaterClass m t WATER_CLASS_INVALID)
             else Inl (SlCorrupt ''Invalid water class for dry tile''))
          else if at_border m t then Inr (SetWaterClass m t WATER_CLASS_SEA)
          else
            (case scan_dirs K m t all_diagdirs no_flags of
               Inl e \<Rightarrow> Inl e
             | Inr f \<Rightarrow>
                 if \<not> has_water f \<and> \<not> has_canal f \<and> \<not> has_river f \<and> allow_invalid
                 then Inr (SetWaterClass m t WATER_CLASS_INVALID)
                 else if has_river f \<and> \<not> has_canal f
                 then Inr (SetWaterClass m t WATER_CLASS_RIVER)
                 else if has_canal f \<or> \<not> has_water f
                 then Inr (SetWaterClass m t WATER_CLASS_CANAL)
                 else Inr (SetWaterClass m t WATER_CLASS_SEA)))"

text \<open>What the four neighbours of a cell are, in the words of the specification.\<close>

definition plain_water :: "Tile \<Rightarrow> bool" where
  "plain_water n = (tile_type n = MP_WATER \<and> \<not> is_coast n \<and> \<not> is_lock n)"

definition river_tile :: "Tile \<Rightarrow> bool" where
  "river_tile n = (plain_water n \<and> water_class n = WATER_CLASS_RIVER)"

definition canal_tile :: "Tile \<Rightarrow> bool" where
  "canal_tile n = (plain_water n \<and> water_class n = WATER_CLASS_CANAL)"

definition sea_tile :: "Enums \<Rightarrow> Tile \<Rightarrow> bool" where
  "sea_tile K n =
     ((tile_type n = MP_WATER \<and> is_coast n)
      \<or> (plain_water n \<and> water_class n = WATER_CLASS_SEA)
      \<or> (tile_type n = MP_RAILWAY \<and> rail_ground n = RAIL_GROUND_WATER K)
      \<or> (tile_type n = MP_TREES \<and> GB (m2 n) 4 2 = TREE_GROUND_SHORE K))"

definition corrupt_tile :: "Tile \<Rightarrow> bool" where
  "corrupt_tile n = (plain_water n \<and> water_class n = WATER_CLASS_INVALID)"

definition neighbour_is :: "(Tile \<Rightarrow> bool) \<Rightarrow> Map \<Rightarrow> nat \<Rightarrow> DiagDirection \<Rightarrow> bool" where
  "neighbour_is P m t dir =
     (case tile_at m (TileAddByDiagDir m t dir) of None \<Rightarrow> False | Some n \<Rightarrow> P n)"

definition some_neighbour :: "(Tile \<Rightarrow> bool) \<Rightarrow> Map \<Rightarrow> nat \<Rightarrow> bool" where
  "some_neighbour P m t = list_ex (neighbour_is P m t) all_diagdirs"

definition every_neighbour :: "(Tile \<Rightarrow> bool) \<Rightarrow> Map \<Rightarrow> nat \<Rightarrow> bool" where
  "every_neighbour P m t = list_all (neighbour_is P m t) all_diagdirs"

text \<open>The class a cell carries after \<open>GuessWaterClass\<close>, or the exception.\<close>

definition GuessedClass :: "Enums \<Rightarrow> Map \<Rightarrow> nat \<Rightarrow> bool \<Rightarrow> LoadError + WaterClass" where
  "GuessedClass K m t allow_invalid =
     (case GuessWaterClass K m t allow_invalid of
        Inl e \<Rightarrow> Inl e
      | Inr m' \<Rightarrow> Inr (GetWaterClass m' t))"

subsection \<open>Sample maps\<close>

text \<open>
  A 64 by 64 map (the smallest the game creates) of flat dry cells, with some cells
  replaced; used to run the definitions on concrete inputs.
\<close>

definition clear_tile :: Tile where
  "clear_tile =
     \<lparr>tile_type = MP_CLEAR, is_flat = True, is_coast = False, is_lock = False,
      is_dock = False, is_buoy = False, water_class = WATER_CLASS_INVALID,
      rail_ground = 0, object_type = 0, m2 = 0, m4 = 0\<rparr>"

definition water_tile :: "WaterClass \<Rightarrow> Tile" where
  "water_tile wc = clear_tile\<lparr>tile_type := MP_WATER, water_class := wc\<rparr>"

definition lock_tile :: Tile where
  "lock_tile = clear_tile\<lparr>tile_type := MP_WATER, is_lock := True\<rparr>"

definition sample_map :: "(nat \<times> Tile) list \<Rightarrow> Map" where
  "sample_map cells =
     \<lparr>MapSizeX = 64, MapSizeY = 64,
      tiles = fold (\<lambda>(i, c) ts. ts[i := c]) cells (replicate 4096 clear_tile)\<rparr>"

definition sample_enums :: Enums where
  "sample_enums =
     \<lparr>RAIL_GROUND_WATER = 6, TREE_GROUND_SHORE = 3, OBJECT_HQ = 4, OBJECT_STATUE = 2\<rparr>"

section \<open>Water classes of locks, docks and buoys (snapshots before version 86)\<close>




section \<open>Vehicles on bridges (snapshots before version 42)\<close>

datatype VehicleType =
  VEH_TRAIN | VEH_ROAD | VEH_SHIP | VEH_AIRCRAFT | VEH_EFFECT | VEH_DISASTER









subsection \<open>Sample vehicles\<close>



subsection \<open>What the loop before version 86 leaves alone\<close>



section \<open>The animated-tile chunk (animated_tile_sl.cpp)\<close>

text \<open>
  The reader a chunk loader is handed. \<open>LoadBuffer\<close> is declared outside the sources; the
  model keeps what \<open>Load_ANIT\<close> uses of it: the version tag of the stream, the bytes not
  yet read, the number of bytes consumed and the size of the current chunk.
\<close>

record LoadBuffer =
  lb_version :: SavegameTypeVersion
  lb_bytes :: "8 word list"
  lb_consumed :: nat
  lb_chunk_size :: nat

text \<open>\<open>reader->IsOTTDVersionBefore(major)\<close>: the oracle on the tag of the stream.\<close>

definition IsOTTDVersionBefore :: "LoadBuffer \<Rightarrow> nat \<Rightarrow> bool" where
  "IsOTTDVersionBefore reader thr = IsSavegameVersionBefore (lb_version reader) thr 0"

text \<open>
  Modelled from the spec: the reader hands out raw integers from the byte stream. The
  most significant byte comes first; reading past the end of the stream is
  \<open>OutOfBounds\<close>.
\<close>

definition be16 :: "8 word \<Rightarrow> 8 word \<Rightarrow> 32 word" where
  "be16 b0 b1 = push_bit 8 (ucast b0) OR ucast b1"

definition be32 :: "8 word \<Rightarrow> 8 word \<Rightarrow> 8 word \<Rightarrow> 8 word \<Rightarrow> 32 word" where
  "be32 b0 b1 b2 b3 =
     push_bit 24 (ucast b0) OR push_bit 16 (ucast b1) OR push_bit 8 (ucast b2) OR ucast b3"

definition ReadUint16 :: "LoadBuffer \<Rightarrow> LoadError + (32 word \<times> LoadBuffer)" where
  "ReadUint16 reader =
     (case lb_bytes reader of
        b0 # b1 # rest \<Rightarrow>
          Inr (be16 b0 b1, reader\<lparr>lb_bytes := rest, lb_consumed := lb_consumed reader + 2\<rparr>)
      | _ \<Rightarrow> Inl OutOfBounds)"

definition ReadUint32 :: "LoadBuffer \<Rightarrow> LoadError + (32 word \<times> LoadBuffer)" where
  "ReadUint32 reader =
     (case lb_bytes reader of
        b0 # b1 # b2 # b3 # rest \<Rightarrow>
          Inr (be32 b0 b1 b2 b3,
               reader\<lparr>lb_bytes := rest, lb_consumed := lb_consumed reader + 4\<rparr>)
      | _ \<Rightarrow> Inl OutOfBounds)"

definition Skip :: "LoadBuffer \<Rightarrow> nat \<Rightarrow> LoadError + LoadBuffer" where
  "Skip reader n =
     (if n \<le> length (lb_bytes reader)
      then Inr (reader\<lparr>lb_bytes := drop n (lb_bytes reader),
                        lb_consumed := lb_consumed reader + n\<rparr>)
      else Inl OutOfBounds)"

text \<open>The three globals of the animated-tile table.\<close>

record AnimatedTiles =
  animated_tile_list :: "32 word list"
  animated_tile_count :: nat
  animated_tile_allocated :: nat

text \<open>
  The loop of the legacy branch, entered with \<open>_animated_tile_count = 0\<close>:
  \<open>for (...; _animated_tile_count < 256; _animated_tile_count++)\<close>. A store beyond the
  allocated table is \<open>OutOfBounds\<close>.
\<close>

function Load_ANIT_legacy ::
  "bool \<Rightarrow> LoadBuffer \<Rightarrow> AnimatedTiles \<Rightarrow> LoadError + (LoadBuffer \<times> AnimatedTiles)"
where
  "Load_ANIT_legacy pre6 reader s =
     (if animated_tile_count s < 256 then
        (case (if pre6 then ReadUint16 reader else ReadUint32 reader) of
           Inl e \<Rightarrow> Inl e
         | Inr (tile, reader') \<Rightarrow>
             if tile = 0 then
               (case Skip reader' ((255 - animated_tile_count s) * (if pre6 then 2 else 4)) of
                  Inl e \<Rightarrow> Inl e
                | Inr reader'' \<Rightarrow> Inr (reader'', s))
             else if animated_tile_count s < length (animated_tile_list s) then
               Load_ANIT_legacy pre6 reader'
                 (s\<lparr>animated_tile_list :=
                      (animated_tile_list s)[animated_tile_count s := tile],
                    animated_tile_count := animated_tile_count s + 1\<rparr>)
             else Inl OutOfBounds)
      else Inr (reader, s))"
  by pat_completeness auto
termination
  by (relation "measure (\<lambda>(pre6, reader, s). 256 - animated_tile_count s)") auto

text \<open>
  \<open>while (_animated_tile_allocated < _animated_tile_count) _animated_tile_allocated *= 2\<close>
  on 32-bit unsigned values: the doubling wraps around, and the loop need not end.
\<close>

partial_function (option) grow_allocated :: "32 word \<Rightarrow> 32 word \<Rightarrow> 32 word option" where
  "grow_allocated allocated count =
     (if allocated < count then grow_allocated (allocated * 2) count else Some allocated)"

text \<open>\<open>xrealloct\<close>: the table keeps its entries and is cut or padded to the new size.\<close>

definition xrealloct :: "32 word list \<Rightarrow> nat \<Rightarrow> 32 word list" where
  "xrealloct xs n = take n xs @ replicate (n - length xs) 0"

text \<open>\<open>for (uint i = 0; i < _animated_tile_count; i++) list[i] = reader->ReadUint32()\<close>\<close>

function read_tiles ::
  "nat \<Rightarrow> LoadBuffer \<Rightarrow> AnimatedTiles \<Rightarrow> LoadError + (LoadBuffer \<times> AnimatedTiles)"
where
  "read_tiles i reader s =
     (if i < animated_tile_count s then
        (case ReadUint32 reader of
           Inl e \<Rightarrow> Inl e
         | Inr (tile, reader') \<Rightarrow>
             if i < length (animated_tile_list s) then
               read_tiles (i + 1) reader'
                 (s\<lparr>animated_tile_list := (animated_tile_list s)[i := tile]\<rparr>)
             else Inl OutOfBounds)
      else Inr (reader, s))"
  by pat_completeness auto
termination
  by (relation "measure (\<lambda>(i, reader, s). animated_tile_count s - i)")
     (auto split: if_splits)

text \<open>
  \<open>Load_ANIT(reader)\<close>. The result is \<open>None\<close> when the doubling loop does not end.
  \<open>sizeof(*_animated_tile_list)\<close> is 4.
\<close>

definition Load_ANIT ::
  "LoadBuffer \<Rightarrow> AnimatedTiles \<Rightarrow> (LoadError + (LoadBuffer \<times> AnimatedTiles)) option"
where
  "Load_ANIT reader s =
     (if IsOTTDVersionBefore reader 80 then
        Some (Load_ANIT_legacy (IsOTTDVersionBefore reader 6) reader
                (s\<lparr>animated_tile_count := 0\<rparr>))
      else
        (let count = (lb_chunk_size reader mod 2 ^ 32) div 4 in
         case grow_allocated 256 (of_nat count) of
           None \<Rightarrow> None
         | Some allocated \<Rightarrow>
             Some (read_tiles 0 reader
                     \<lparr>animated_tile_list = xrealloct (animated_tile_list s) (unat allocated),
                      animated_tile_count = count,
                      animated_tile_allocated = unat allocated\<rparr>)))"

text \<open>
  The fixed table of the legacy format in the words of the claim: the first \<open>n\<close> entries of
  a byte stream, 2 bytes each before version 6 and 4 bytes each otherwise.
\<close>

fun table_entries :: "bool \<Rightarrow> nat \<Rightarrow> 8 word list \<Rightarrow> 32 word list" where
  "table_entries pre6 0 bs = []"
| "table_entries True (Suc n) (b0 # b1 # bs) = be16 b0 b1 # table_entries True n bs"
| "table_entries False (Suc n) (b0 # b1 # b2 # b3 # bs) =
     be32 b0 b1 b2 b3 # table_entries False n bs"
| "table_entries pre6 (Suc n) bs = []"

definition entry_size :: "bool \<Rightarrow> nat" where
  "entry_size pre6 = (if pre6 then 2 else 4)"

section \<open>AfterLoadGame: the global state it writes itself\<close>

datatype GRFListCompatibility = GLC_ALL_GOOD | GLC_COMPATIBLE | GLC_NOT_FOUND

datatype GRFStatus =
  GCS_UNKNOWN | GCS_DISABLED | GCS_NOT_FOUND | GCS_INITIALISED | GCS_ACTIVATED

record GRFConfig =
  grfid :: "32 word"
  status :: GRFStatus
  flags :: "8 word"

datatype DistributionType = DT_MANUAL | DT_ASYMMETRIC | DT_SYMMETRIC

text \<open>What \<open>AfterLoadGame\<close> appends to the game log.\<close>

datatype GamelogEntry = GamelogGRFRemove "32 word" | GamelogGRFCompatible "32 word"

text \<open>
  A call into another module, or a block of \<open>AfterLoadGame\<close> that works on the pools and the
  map only (named by the line of its guard).
\<close>

datatype Event = Call string | Block nat

text \<open>
  The globals that lines 294 to 504 of \<open>afterload.cpp\<close> read and assign directly, the
  game log, the messages shown to the user, and the calls made, in order.
\<close>

record World =
  networking :: bool
  network_server :: bool
  network_dedicated :: bool
  pause_mode :: "8 word"
  cur_tileloop_tile :: "32 word"
  road_side :: nat
  date_fract :: nat
  currency :: nat
  modified_catchment :: bool
  forbid_90_deg :: bool
  train_acceleration_model :: nat
  plane_speed :: nat
  dynamic_engines :: nat
  station_noise_level :: bool
  roadveh_acceleration_model :: nat
  train_slope_steepness :: nat
  feeder_payment_share :: nat
  plane_crashes :: nat
  roadveh_slope_steepness :: nat
  allow_town_level_crossings :: bool
  max_train_length :: nat
  max_bridge_length :: nat
  max_tunnel_length :: nat
  infrastructure_maintenance :: bool
  distribution_pax :: DistributionType
  distribution_mail :: DistributionType
  distribution_armoured :: DistributionType
  distribution_default :: DistributionType
  grfconfig :: "GRFConfig list"
  gamelog :: "GamelogEntry list"
  errors_shown :: "StringID list"
  events :: "Event list"

text \<open>
  Constants and one function of headers outside the sources, as parameters:
  the pause modes, the bit number \<open>GCF_COMPATIBLE\<close>, \<open>DAY_TICKS\<close>, and
  \<open>IsGoodGRFConfigList\<close>, which classifies the list of content packs and may update it.
\<close>

record Env =
  PM_UNPAUSED :: "8 word"
  PM_PAUSED_NORMAL :: "8 word"
  PM_PAUSED_ERROR :: "8 word"
  PMB_PAUSED_NETWORK :: "8 word"
  GCF_COMPATIBLE :: nat
  DAY_TICKS :: nat
  IsGoodGRFConfigList :: "GRFConfig list \<Rightarrow> GRFListCompatibility \<times> GRFConfig list"

definition call :: "string \<Rightarrow> World \<Rightarrow> World" where
  "call name w = w\<lparr>events := events w @ [Call name]\<rparr>"

definition block :: "nat \<Rightarrow> World \<Rightarrow> World" where
  "block ln w = w\<lparr>events := events w @ [Block ln]\<rparr>"

text \<open>\<open>if (c) stmt\<close> for a statement that cannot throw.\<close>

definition doif :: "bool \<Rightarrow> (World \<Rightarrow> World) \<Rightarrow> World \<Rightarrow> World" where
  "doif c f w = (if c then f w else w)"

text \<open>Statements that cannot throw, one after the other, the first of the list first.\<close>

definition seq :: "('a \<Rightarrow> 'a) list \<Rightarrow> 'a \<Rightarrow> 'a" where
  "seq fs w = fold (\<lambda>f. f) fs w"

text \<open>Lines 294 to 299: the game log of an old snapshot.\<close>

definition GamelogStart :: "SavegameTypeVersion \<Rightarrow> World \<Rightarrow> World" where
  "GamelogStart stv =
     seq
      [doif (IsSavegameVersionBefore stv 98 0) (call ''GamelogOldver''),
       call ''GamelogTestRevision'',
       call ''GamelogTestMode'',
       doif (IsSavegameVersionBefore stv 98 0) (call ''GamelogGRFAddList'')]"

text \<open>Lines 301 to 316: the pause mode.\<close>

definition FixPauseMode :: "Env \<Rightarrow> SavegameTypeVersion \<Rightarrow> World \<Rightarrow> LoadError + World" where
  "FixPauseMode E stv w =
     (if IsSavegameVersionBefore stv 119 0 then
        Inr (w\<lparr>pause_mode := (if pause_mode w = 2 then PM_PAUSED_NORMAL E else PM_UNPAUSED E)\<rparr>)
      else if network_dedicated w \<and> pause_mode w AND PM_PAUSED_ERROR E \<noteq> 0 then
        Inl (SlCorrupt ''Savegame paused due to an error state'')
      else if \<not> networking w \<or> network_server w then
        Inr (w\<lparr>pause_mode := pause_mode w AND NOT (PMB_PAUSED_NETWORK E)\<rparr>)
      else Inr w)"

text \<open>Line 320: \<open>if (_cur_tileloop_tile == 0) _cur_tileloop_tile = 1\<close>.\<close>

definition FixTileLoop :: "World \<Rightarrow> World" where
  "FixTileLoop w = (if cur_tileloop_tile w = 0 then w\<lparr>cur_tileloop_tile := 1\<rparr> else w)"

text \<open>The table \<open>convert_currency\<close> of line 369.\<close>

definition convert_currency :: "nat list" where
  "convert_currency =
     [0, 1, 12, 8, 3,
      10, 14, 19, 4, 5,
      9, 11, 13, 6, 17,
      16, 22, 21, 7, 15,
      18, 2, 20]"

text \<open>
  Lines 323 to 434. The blocks on stations, towns, companies and the map are events; the
  currency is converted through the table, and an index outside it is \<open>OutOfBounds\<close>.
\<close>

definition ConvertCurrency :: "SavegameTypeVersion \<Rightarrow> World \<Rightarrow> LoadError + World" where
  "ConvertCurrency stv w =
     (if IsSavegameVersionBefore stv 4 2 then
        (if currency w < length convert_currency
         then Inr (w\<lparr>currency := convert_currency ! currency w\<rparr>)
         else Inl OutOfBounds)
      else Inr w)"

definition OldFixupsA :: "SavegameTypeVersion \<Rightarrow> World \<Rightarrow> World" where
  "OldFixupsA stv =
     seq
      [call ''AfterLoadMap'',
       doif (IsSavegameVersionBefore stv 2 0) (block 331),
       doif (IsSavegameVersionBefore stv 4 1) (block 350)]"

definition OldFixupsB :: "SavegameTypeVersion \<Rightarrow> World \<Rightarrow> World" where
  "OldFixupsB stv =
     seq
      [doif (IsSavegameVersionBefore stv 4 3) (block 384),
       doif (IsSavegameVersionBefore stv 84 0) (block 392),
       call ''ResetOldNames'',
       doif (IsSavegameVersionBefore stv 106 0) (block 418)]"

text \<open>Line 437: \<open>if (road_side) road_side = 1\<close>.\<close>

definition FixRoadSide :: "World \<Rightarrow> World" where
  "FixRoadSide w = (if road_side w \<noteq> 0 then w\<lparr>road_side := 1\<rparr> else w)"

text \<open>Lines 441 to 447: the loop over the content packs.\<close>

fun GamelogGRFs :: "Env \<Rightarrow> GRFConfig list \<Rightarrow> GamelogEntry list" where
  "GamelogGRFs E [] = []"
| "GamelogGRFs E (c # cs) =
     (if status c = GCS_NOT_FOUND then [GamelogGRFRemove (grfid c)]
      else if bit (flags c) (GCF_COMPATIBLE E) then [GamelogGRFCompatible (grfid c)]
      else [])
     @ GamelogGRFs E cs"

text \<open>
  Lines 440 to 457: the check of the content packs. \<open>ShowErrorMessage\<close> appends to the
  messages shown.
\<close>

definition CheckNewGRFs :: "Env \<Rightarrow> World \<Rightarrow> LoadError + World" where
  "CheckNewGRFs E w =
     (case IsGoodGRFConfigList E (grfconfig w) of
        (gcf_res, cfgs) \<Rightarrow>
          (let w1 = w\<lparr>grfconfig := cfgs, gamelog := gamelog w @ GamelogGRFs E cfgs\<rparr> in
           if networking w1 \<and> gcf_res \<noteq> GLC_ALL_GOOD then
             Inl (SlException STR_NETWORK_ERROR_CLIENT_NEWGRF_MISMATCH)
           else
             (case gcf_res of
                GLC_COMPATIBLE \<Rightarrow>
                  Inr (w1\<lparr>errors_shown :=
                             errors_shown w1 @ [STR_NEWGRF_COMPATIBLE_LOAD_WARNING]\<rparr>)
              | GLC_NOT_FOUND \<Rightarrow>
                  Inr (w1\<lparr>errors_shown := errors_shown w1 @ [STR_NEWGRF_DISABLED_WARNING],
                          pause_mode := PM_PAUSED_ERROR E\<rparr>)
              | GLC_ALL_GOOD \<Rightarrow> Inr w1)))"

text \<open>Lines 460 to 464: the fraction of the day, and \<open>SetDate\<close>.\<close>

definition FixDateFract :: "Env \<Rightarrow> SavegameTypeVersion \<Rightarrow> World \<Rightarrow> World" where
  "FixDateFract E stv w =
     call ''SetDate''
       (if IsSavegameVersionBefore stv 11 1
           \<or> (IsSavegameVersionBefore stv 147 0 \<and> date_fract w > DAY_TICKS E)
        then w\<lparr>date_fract := date_fract w div 885\<rparr> else w)"

text \<open>Lines 479 to 504: settings that keep the behaviour of the old version.\<close>

definition BackfillSettings :: "SavegameTypeVersion \<Rightarrow> World \<Rightarrow> World" where
  "BackfillSettings stv =
     seq
      [doif (IsSavegameVersionBefore stv 4 2) (\<lambda>w. w\<lparr>modified_catchment := False\<rparr>),
       doif (IsSavegameVersionBefore stv 6 1) (\<lambda>w. w\<lparr>forbid_90_deg := False\<rparr>),
       doif (IsSavegameVersionBefore stv 21 0) (\<lambda>w. w\<lparr>train_acceleration_model := 0\<rparr>),
       doif (IsSavegameVersionBefore stv 90 0) (\<lambda>w. w\<lparr>plane_speed := 4\<rparr>),
       doif (IsSavegameVersionBefore stv 95 0) (\<lambda>w. w\<lparr>dynamic_engines := 0\<rparr>),
       doif (IsSavegameVersionBefore stv 96 0) (\<lambda>w. w\<lparr>station_noise_level := False\<rparr>),
       doif (IsSavegameVersionBefore stv 133 0)
         (\<lambda>w. w\<lparr>roadveh_acceleration_model := 0, train_slope_steepness := 3\<rparr>),
       doif (IsSavegameVersionBefore stv 134 0) (\<lambda>w. w\<lparr>feeder_payment_share := 75\<rparr>),
       doif (IsSavegameVersionBefore stv 138 0) (\<lambda>w. w\<lparr>plane_crashes := 2\<rparr>),
       doif (IsSavegameVersionBefore stv 139 0) (\<lambda>w. w\<lparr>roadveh_slope_steepness := 7\<rparr>),
       doif (IsSavegameVersionBefore stv 143 0) (\<lambda>w. w\<lparr>allow_town_level_crossings := True\<rparr>),
       doif (IsSavegameVersionBefore stv 159 0)
         (\<lambda>w. w\<lparr>max_train_length := 50, max_bridge_length := 64, max_tunnel_length := 64\<rparr>),
       doif (IsSavegameVersionBefore stv 166 0) (\<lambda>w. w\<lparr>infrastructure_maintenance := False\<rparr>),
       doif (IsSavegameVersionBefore stv 183 0)
       (\<lambda>w. w\<lparr>distribution_pax := DT_MANUAL, distribution_mail := DT_MANUAL,
               distribution_armoured := DT_MANUAL, distribution_default := DT_MANUAL\<rparr>)]"

text \<open>
  Lines 294 to 504 of \<open>AfterLoadGame\<close> in order; an exception leaves the pass.
\<close>

definition AfterLoadGame_head :: "Env \<Rightarrow> SavegameTypeVersion \<Rightarrow> World \<Rightarrow> LoadError + World" where
  "AfterLoadGame_head E stv w =
     (case FixPauseMode E stv (GamelogStart stv w) of
        Inl e \<Rightarrow> Inl e
      | Inr w1 \<Rightarrow>
          (case ConvertCurrency stv (OldFixupsA stv (FixTileLoop w1)) of
             Inl e \<Rightarrow> Inl e
           | Inr w2 \<Rightarrow>
               (case CheckNewGRFs E (FixRoadSide (OldFixupsB stv w2)) of
                  Inl e \<Rightarrow> Inl e
                | Inr w3 \<Rightarrow> Inr (BackfillSettings stv (FixDateFract E stv w3)))))"

subsection \<open>A sample world\<close>

definition sample_env :: "GRFListCompatibility \<Rightarrow> Env" where
  "sample_env res =
     \<lparr>PM_UNPAUSED = 0, PM_PAUSED_NORMAL = 1, PM_PAUSED_ERROR = 8, PMB_PAUSED_NETWORK = 20,
      GCF_COMPATIBLE = 6, DAY_TICKS = 74, IsGoodGRFConfigList = (\<lambda>cfgs. (res, cfgs))\<rparr>"

definition sample_world :: World where
  "sample_world =
     \<lparr>networking = False, network_server = False, network_dedicated = False,
      pause_mode = 0, cur_tileloop_tile = 0, road_side = 0, date_fract = 10, currency = 0,
      modified_catchment = True, forbid_90_deg = True, train_acceleration_model = 1,
      plane_speed = 1, dynamic_engines = 1, station_noise_level = True,
      roadveh_acceleration_model = 1, train_slope_steepness = 3, feeder_payment_share = 75,
      plane_crashes = 2, roadveh_slope_steepness = 7, allow_town_level_crossings = True,
      max_train_length = 7, max_bridge_length = 64, max_tunnel_length = 64,
      infrastructure_maintenance = True, distribution_pax = DT_SYMMETRIC,
      distribution_mail = DT_MANUAL, distribution_armoured = DT_MANUAL,
      distribution_default = DT_MANUAL, grfconfig = [], gamelog = [], errors_shown = [],
      events = []\<rparr>"

section \<open>Objects for object tiles (snapshots before version 147)\<close>

text \<open>The fields of a pooled \<open>Object\<close> that the block sets; \<open>town\<close> is the index of a town.\<close>

record Object =
  location_tile :: nat
  location_w :: nat
  location_h :: nat
  build_date :: int
  town :: nat

text \<open>
  The map, the object pool and the counters of \<open>Object::IncTypeCount\<close>. The pool is empty
  when the block starts and nothing is freed in it, so \<open>new Object()\<close> takes the index after
  the last object: the index of an object is its position in the list.
\<close>

record ObjectState =
  the_map :: Map
  object_pool :: "Object list"
  type_count :: "nat \<Rightarrow> nat"

text \<open>
  What the block takes from outside the sources: the number of towns, the capacity of the
  object pool, \<open>_date\<close>, \<open>CalcClosestTownFromTile\<close> and \<open>DoClearSquare\<close>.
\<close>

record ObjectEnv =
  num_towns :: nat
  object_pool_capacity :: nat
  cur_date :: int
  CalcClosestTownFromTile :: "nat \<Rightarrow> nat"
  DoClearSquare :: "Tile \<Rightarrow> Tile"

definition set_tile :: "Map \<Rightarrow> nat \<Rightarrow> Tile \<Rightarrow> Map" where
  "set_tile m t c = m\<lparr>tiles := (tiles m)[t := c]\<rparr>"

text \<open>
  \<open>t - TileXY(GB(offset, 0, 4), GB(offset, 4, 4))\<close>. The subtraction is unsigned in the
  C++ and wraps below zero to an index far outside the map; over the integers it is
  negative there, and \<open>tile_at\<close> has no cell for it either.
\<close>

definition northern_tile :: "Map \<Rightarrow> nat \<Rightarrow> 8 word \<Rightarrow> int" where
  "northern_tile m t offset =
     int t - int (TileXY m (unat (GB offset 0 4)) (unat (GB offset 4 4)))"

text \<open>
  The body of the loop over all tiles. The failed \<open>assert\<close> on the type of the northern
  tile is \<open>OutOfBounds\<close> as well: the offset points outside the object.
\<close>

definition MakeObject :: "Enums \<Rightarrow> ObjectEnv \<Rightarrow> ObjectState \<Rightarrow> nat \<Rightarrow> LoadError + ObjectState"
where
  "MakeObject K E s t =
     (case tile_at (the_map s) (int t) of
        None \<Rightarrow> Inl OutOfBounds
      | Some c \<Rightarrow>
          if tile_type c \<noteq> MP_OBJECT then Inr s
          else if num_towns E = 0 then
            Inr (s\<lparr>the_map := set_tile (the_map s) t (DoClearSquare E c)\<rparr>)
          else
            (let offset = m4 c;
                 m = set_tile (the_map s) t (c\<lparr>m4 := 0\<rparr>)
             in
             if offset = 0 then
               (let type = object_type c;
                    size = (if type = OBJECT_HQ K then 2 else 1)
                in
                if \<not> length (object_pool s) < object_pool_capacity E then
                  Inl (SlException STR_ERROR_TOO_MANY_OBJECTS)
                else
                  Inr (s\<lparr>the_map :=
                            set_tile m t
                              (c\<lparr>m4 := 0, m2 := of_nat (length (object_pool s))\<rparr>),
                         object_pool := object_pool s @
                            [\<lparr>location_tile = t, location_w = size, location_h = size,
                              build_date = cur_date E,
                              town = (if type = OBJECT_STATUE K then unat (m2 c)
                                      else CalcClosestTownFromTile E t)\<rparr>],
                         type_count := (type_count s)(type := type_count s type + 1)\<rparr>))
             else
               (case tile_at m (northern_tile m t offset) of
                  None \<Rightarrow> Inl OutOfBounds
                | Some n \<Rightarrow>
                    if tile_type n \<noteq> MP_OBJECT then Inl OutOfBounds
                    else Inr (s\<lparr>the_map := set_tile m t (c\<lparr>m4 := 0, m2 := m2 n\<rparr>)\<rparr>))))"

text \<open>\<open>for (TileIndex t = 0; t < map_size; t++)\<close>, leaving at the first exception.\<close>

fun for_all_object_tiles ::
  "(ObjectState \<Rightarrow> nat \<Rightarrow> LoadError + ObjectState) \<Rightarrow> ObjectState \<Rightarrow> nat list
     \<Rightarrow> LoadError + ObjectState"
where
  "for_all_object_tiles body s [] = Inr s"
| "for_all_object_tiles body s (t # ts) =
     (case body s t of Inl e \<Rightarrow> Inl e | Inr s' \<Rightarrow> for_all_object_tiles body s' ts)"

text \<open>
  The block
  \<open>if (IsSavegameVersionBefore(stv, 147) && Object::GetNumItems() == 0) { ... }\<close>.
\<close>

definition MakeObjects147 ::
  "Enums \<Rightarrow> ObjectEnv \<Rightarrow> SavegameTypeVersion \<Rightarrow> ObjectState \<Rightarrow> LoadError + ObjectState"
where
  "MakeObjects147 K E stv s =
     (if IsSavegameVersionBefore stv 147 0 \<and> length (object_pool s) = 0
      then for_all_object_tiles (MakeObject K E) s [0..<MapSize (the_map s)]
      else Inr s)"

text \<open>
  The cells the claim speaks of, read off the map as loaded: an object cell with offset
  zero, and an object cell with a non-zero offset.
\<close>

definition root_cell :: "Map \<Rightarrow> nat \<Rightarrow> bool" where
  "root_cell m t = (tile_type (tiles m ! t) = MP_OBJECT \<and> m4 (tiles m ! t) = 0)"

definition offset_cell :: "Map \<Rightarrow> nat \<Rightarrow> bool" where
  "offset_cell m t = (tile_type (tiles m ! t) = MP_OBJECT \<and> m4 (tiles m ! t) \<noteq> 0)"

text \<open>The invariant of the loop after the tiles below \<open>n\<close>, against the map as loaded.\<close>

definition objects_made :: "Map \<Rightarrow> nat \<Rightarrow> ObjectState \<Rightarrow> bool" where
  "objects_made m0 n s =
     (MapSizeX (the_map s) = MapSizeX m0 \<and> MapSizeY (the_map s) = MapSizeY m0
      \<and> length (tiles (the_map s)) = length (tiles m0)
      \<and> (\<forall>i < length (tiles m0). n \<le> i \<longrightarrow> tiles (the_map s) ! i = tiles m0 ! i)
      \<and> (\<forall>i < length (tiles m0).
            tile_type (tiles (the_map s) ! i) = tile_type (tiles m0 ! i))
      \<and> map location_tile (object_pool s) = filter (root_cell m0) [0..<n]
      \<and> (\<forall>i < n. root_cell m0 i \<longrightarrow>
            unat (m2 (tiles (the_map s) ! i)) < length (object_pool s)
            \<and> location_tile (object_pool s ! unat (m2 (tiles (the_map s) ! i))) = i)
      \<and> (\<forall>i < n. offset_cell m0 i \<longrightarrow>
            0 \<le> northern_tile m0 i (m4 (tiles m0 ! i))
            \<and> tile_type (tiles m0 ! nat (northern_tile m0 i (m4 (tiles m0 ! i)))) = MP_OBJECT
            \<and> m2 (tiles (the_map s) ! i)
                = m2 (tiles (the_map s) ! nat (northern_tile m0 i (m4 (tiles m0 ! i))))))"

subsection \<open>A sample map with objects\<close>

text \<open>
  An 8 by 8 map with a 2 by 2 headquarters at cells 9, 10, 17, 18 (offsets \<open>0x00\<close>,
  \<open>0x01\<close>, \<open>0x10\<close>, \<open>0x11\<close>) and a lighthouse at cell 30.
\<close>

definition object_tile :: "nat \<Rightarrow> 8 word \<Rightarrow> Tile" where
  "object_tile type offset =
     clear_tile\<lparr>tile_type := MP_OBJECT, object_type := type, m4 := offset, m2 := 0xFFFF\<rparr>"

definition object_map :: Map where
  "object_map =
     \<lparr>MapSizeX = 8, MapSizeY = 8,
      tiles = (replicate 64 clear_tile)
        [9 := object_tile 4 0x00, 10 := object_tile 4 0x01,
         17 := object_tile 4 0x10, 18 := object_tile 4 0x11,
         30 := object_tile 1 0x00]\<rparr>"

definition object_env :: ObjectEnv where
  "object_env =
     \<lparr>num_towns = 1, object_pool_capacity = 64000, cur_date = 700000,
      CalcClosestTownFromTile = (\<lambda>t. 0), DoClearSquare = (\<lambda>c. clear_tile)\<rparr>"

section \<open>AfterLoadGame: the order of its statements\<close>

text \<open>
  The condition in front of a top-level statement of \<open>AfterLoadGame\<close>: nothing, a query
  \<open>IsSavegameVersionBefore(stv, major, minor)\<close>, another condition on the state (named by
  its text), or a combination.
\<close>

datatype Guard =
    Always
  | Before nat nat
  | Cond string
  | Neg Guard
  | Conj Guard Guard
  | Disj Guard Guard

text \<open>What a statement does: code of the pass, or a call that is handed the version tag.\<close>

datatype What = Code string | CallStv string

text \<open>A top-level statement: the line where it starts, its condition and what it does.\<close>

datatype Stmt = Stmt (line: nat) (guard: Guard) (what: What)

text \<open>Whether a condition holds, for a version tag and a valuation of the other conditions.\<close>

fun holds :: "SavegameTypeVersion \<Rightarrow> (string \<Rightarrow> bool) \<Rightarrow> Guard \<Rightarrow> bool" where
  "holds stv cond Always = True"
| "holds stv cond (Before M m) = IsSavegameVersionBefore stv M m"
| "holds stv cond (Cond c) = cond c"
| "holds stv cond (Neg g) = (\<not> holds stv cond g)"
| "holds stv cond (Conj g h) = (holds stv cond g \<and> holds stv cond h)"
| "holds stv cond (Disj g h) = (holds stv cond g \<or> holds stv cond h)"






text \<open>
  One pass over a list of statements: the lines of the statements that were entered, in
  order, and whether the pass ran to its end. A statement is entered when its condition
  holds; \<open>throws\<close> tells of which statements an exception escapes, and the pass stops
  there. Any statement may throw here, which covers whatever the code of the pass and of
  the modules it calls really does.
\<close>

fun run ::
  "SavegameTypeVersion \<Rightarrow> (string \<Rightarrow> bool) \<Rightarrow> (nat \<Rightarrow> bool) \<Rightarrow> Stmt list \<Rightarrow> nat list \<times> bool"
where
  "run stv cond throws [] = ([], True)"
| "run stv cond throws (s # ss) =
     (if holds stv cond (guard s) then
        (if throws (line s) then ([line s], False)
         else (case run stv cond throws ss of (tr, ok) \<Rightarrow> (line s # tr, ok)))
      else run stv cond throws ss)"

section \<open>Properties of the oracle\<close>

lemma before_lex:
  "IsSavegameVersionBefore stv M m \<longleftrightarrow>
     ((major stv, minor_of stv), (M, m)) \<in> less_than <*lex*> less_than"
  by (simp add: IsSavegameVersionBefore_def)

lemma older_trans: "older a b \<Longrightarrow> older b c \<Longrightarrow> older a c"
  by (auto simp: older_def IsSavegameVersionBefore_def split: if_splits)

lemma older_asym: "older a b \<Longrightarrow> \<not> older b a"
  by (auto simp: older_def IsSavegameVersionBefore_def split: if_splits)

lemma before_mono:
  "IsSavegameVersionBefore stv M m \<Longrightarrow> M \<le> M' \<Longrightarrow> (M = M' \<longrightarrow> m \<le> m')
     \<Longrightarrow> IsSavegameVersionBefore stv M' m'"
  by (auto simp: IsSavegameVersionBefore_def split: if_splits)

text \<open>
  Claim C5. For all version pairs the oracle agrees with the strict lexicographic order on
  (major, minor), where an absent minor counts as 0, and the induced order on version tags
  is transitive and antisymmetric (it is even asymmetric, so two tags that are each older
  than the other do not exist).
\<close>

theorem oracle_lexicographic_order:
  "(IsSavegameVersionBefore a (major b) (minor_of b) \<longleftrightarrow>
      ((major a, minor_of a), (major b, minor_of b)) \<in> less_than <*lex*> less_than)
   \<and> (older a b \<and> older b c \<longrightarrow> older a c)
   \<and> (older a b \<and> older b a \<longrightarrow> major a = major b \<and> minor_of a = minor_of b)
   \<and> (older a b \<longrightarrow> \<not> older b a)
   \<and> (minor a = None \<and> 0 < k \<longrightarrow> older a \<lparr>major = major a, minor = Some k\<rparr>)"
proof -
  have "older a b \<and> older b c \<longrightarrow> older a c"
    using older_trans by blast
  moreover have "older a b \<longrightarrow> \<not> older b a"
    using older_asym by blast
  moreover have "minor a = None \<and> 0 < k \<longrightarrow> older a \<lparr>major = major a, minor = Some k\<rparr>"
    by (simp add: older_def IsSavegameVersionBefore_def minor_of_def)
  ultimately show ?thesis
    using before_lex by blast
qed

theorem oracle_lexicographic_order_witness:
  "older \<lparr>major = 4, minor = None\<rparr> \<lparr>major = 4, minor = Some 2\<rparr>
   \<and> older \<lparr>major = 4, minor = Some 2\<rparr> \<lparr>major = 6, minor = Some 1\<rparr>
   \<and> older \<lparr>major = 4, minor = None\<rparr> \<lparr>major = 6, minor = Some 1\<rparr>
   \<and> \<not> older \<lparr>major = 4, minor = Some 2\<rparr> \<lparr>major = 4, minor = None\<rparr>"
  using oracle_lexicographic_order
    [of "\<lparr>major = 4, minor = None\<rparr>" "\<lparr>major = 4, minor = Some 2\<rparr>"
        "\<lparr>major = 6, minor = Some 1\<rparr>" 2]
  by (simp add: older_def IsSavegameVersionBefore_def minor_of_def)

section \<open>Properties of GuessWaterClass\<close>

lemma scan_neighbour_eq:
  "scan_neighbour K n f =
     (if corrupt_tile n then Inl (SlCorrupt ''Invalid water class for tile'')
      else Inr \<lparr>has_water = has_water f \<or> sea_tile K n,
                has_canal = has_canal f \<or> canal_tile n,
                has_river = has_river f \<or> river_tile n\<rparr>)"
  by (cases f; cases "tile_type n"; cases "water_class n")
     (simp_all add: scan_neighbour_def corrupt_tile_def sea_tile_def canal_tile_def
        river_tile_def plain_water_def)

lemma scan_dirs_completes:
  "list_all (neighbour_is (\<lambda>n. \<not> corrupt_tile n) m t) dirs \<Longrightarrow>
   scan_dirs K m t dirs f =
     Inr \<lparr>has_water = has_water f \<or> list_ex (neighbour_is (sea_tile K) m t) dirs,
          has_canal = has_canal f \<or> list_ex (neighbour_is canal_tile m t) dirs,
          has_river = has_river f \<or> list_ex (neighbour_is river_tile m t) dirs\<rparr>"
proof (induction dirs arbitrary: f)
  case Nil
  then show ?case by simp
next
  case (Cons dir dirs)
  from Cons.prems have here: "neighbour_is (\<lambda>n. \<not> corrupt_tile n) m t dir"
    and rest: "list_all (neighbour_is (\<lambda>n. \<not> corrupt_tile n) m t) dirs"
    by simp_all
  from here obtain n where
    n: "tile_at m (TileAddByDiagDir m t dir) = Some n" "\<not> corrupt_tile n"
    by (auto simp: neighbour_is_def split: option.splits)
  show ?case
    using n by (simp add: scan_neighbour_eq Cons.IH [OF rest] neighbour_is_def)
qed


lemma at_border_iff:
  "at_border m t \<longleftrightarrow>
     TileX m t = 0 \<or> TileY m t = 0
     \<or> TileX m t + 1 = MapMaxX m \<or> TileY m t + 1 = MapMaxY m"
  by (auto simp: at_border_def)

lemma GuessWaterClass_inner:
  assumes "tile_at m (int t) = Some cell" "is_flat cell" "\<not> at_border m t"
    and "every_neighbour (\<lambda>n. \<not> corrupt_tile n) m t"
  shows "GuessWaterClass K m t allow_invalid =
     Inr (SetWaterClass m t
       (if some_neighbour canal_tile m t then WATER_CLASS_CANAL
        else if some_neighbour river_tile m t then WATER_CLASS_RIVER
        else if some_neighbour (sea_tile K) m t then WATER_CLASS_SEA
        else if allow_invalid then WATER_CLASS_INVALID
        else WATER_CLASS_CANAL))"
  using assms
  by (simp add: GuessWaterClass_def every_neighbour_def some_neighbour_def
      scan_dirs_completes no_flags_def)

lemma GetWaterClass_SetWaterClass:
  "t < length (tiles m) \<Longrightarrow> GetWaterClass (SetWaterClass m t wc) t = wc"
  by (simp add: GetWaterClass_def SetWaterClass_def)

lemmas sample_defs =
  sample_map_def sample_enums_def clear_tile_def water_tile_def lock_tile_def

lemmas water_defs =
  GuessedClass_def GuessWaterClass_def GetWaterClass_def SetWaterClass_def tile_at_def
  at_border_def TileX_def TileY_def MapMaxX_def MapMaxY_def TileAddByDiagDir_def
  all_diagdirs_def no_flags_def scan_neighbour_def some_neighbour_def every_neighbour_def
  neighbour_is_def plain_water_def river_tile_def canal_tile_def sea_tile_def
  corrupt_tile_def GB_def




text \<open>
  Claim C8. On a flat cell off the border, called with \<open>allow_invalid\<close> set, when the scan
  completes and finds no sea, canal or river neighbour, \<open>GuessWaterClass\<close> returns normally
  and the cell carries \<open>WATER_CLASS_INVALID\<close>.
\<close>

theorem GuessWaterClass_allow_invalid:
  assumes "tile_at m (int t) = Some cell" and "is_flat cell" and "\<not> at_border m t"
    and "every_neighbour (\<lambda>n. \<not> corrupt_tile n) m t"
    and "\<not> some_neighbour (sea_tile K) m t"
    and "\<not> some_neighbour canal_tile m t"
    and "\<not> some_neighbour river_tile m t"
  shows "GuessWaterClass K m t True = Inr (SetWaterClass m t WATER_CLASS_INVALID)
    \<and> GuessedClass K m t True = Inr WATER_CLASS_INVALID"
proof -
  have g: "GuessWaterClass K m t True = Inr (SetWaterClass m t WATER_CLASS_INVALID)"
    using assms(5-7) by (simp add: GuessWaterClass_inner [OF assms(1-4)])
  from assms(1) have "t < length (tiles m)"
    by (simp add: tile_at_def split: if_splits)
  then show ?thesis
    using g by (simp add: GuessedClass_def GetWaterClass_SetWaterClass)
qed

theorem GuessWaterClass_allow_invalid_witness:
  "GuessedClass sample_enums (sample_map [(65, lock_tile)]) 65 True = Inr WATER_CLASS_INVALID"
  using GuessWaterClass_allow_invalid
    [of "sample_map [(65, lock_tile)]" 65 lock_tile sample_enums]
  by (simp add: sample_defs tile_at_def at_border_def TileX_def TileY_def MapMaxX_def
      MapMaxY_def TileAddByDiagDir_def all_diagdirs_def some_neighbour_def
      every_neighbour_def neighbour_is_def plain_water_def river_tile_def canal_tile_def
      sea_tile_def corrupt_tile_def GB_def)

text \<open>
  Claim C9, as the code has it. The border of \<open>GuessWaterClass\<close> is column or row 0 and
  column or row \<open>MapMax - 1\<close>, one short of the map's maximum. A flat cell there becomes sea
  whatever the flag, the enum values and the rest of the map are: no neighbour is read.
\<close>

theorem GuessWaterClass_border_sea:
  assumes "tile_at m (int t) = Some cell" and "is_flat cell"
    and "TileX m t = 0 \<or> TileY m t = 0
         \<or> TileX m t + 1 = MapMaxX m \<or> TileY m t + 1 = MapMaxY m"
  shows "GuessWaterClass K m t allow_invalid = Inr (SetWaterClass m t WATER_CLASS_SEA)
    \<and> (MapSizeX m' = MapSizeX m \<and> MapSizeY m' = MapSizeY m
         \<and> tile_at m' (int t) = Some cell \<longrightarrow>
       GuessedClass K' m' t allow_invalid' = Inr WATER_CLASS_SEA)"
proof -
  have b: "at_border m t"
    using assms(3) by (simp add: at_border_iff)
  have "at_border m' t" if "MapSizeX m' = MapSizeX m" "MapSizeY m' = MapSizeY m"
    using b that by (simp add: at_border_def TileX_def TileY_def MapMaxX_def MapMaxY_def)
  moreover have "t < length (tiles m')" if "tile_at m' (int t) = Some cell"
    using that by (simp add: tile_at_def split: if_splits)
  ultimately show ?thesis
    using assms(1,2) b
    by (simp add: GuessWaterClass_def GuessedClass_def GetWaterClass_SetWaterClass)
qed

theorem GuessWaterClass_border_sea_witness:
  "GuessWaterClass sample_enums
     (sample_map [(382, lock_tile), (381, water_tile WATER_CLASS_RIVER)]) 382 True
   = Inr (SetWaterClass
       (sample_map [(382, lock_tile), (381, water_tile WATER_CLASS_RIVER)]) 382
       WATER_CLASS_SEA)
   \<and> TileX (sample_map [(382, lock_tile), (381, water_tile WATER_CLASS_RIVER)]) 382 + 1
     = MapMaxX (sample_map [(382, lock_tile), (381, water_tile WATER_CLASS_RIVER)])"
  using GuessWaterClass_border_sea
    [of "sample_map [(382, lock_tile), (381, water_tile WATER_CLASS_RIVER)]" 382 lock_tile
        sample_enums True]
  by (simp add: sample_defs tile_at_def TileX_def TileY_def MapMaxX_def MapMaxY_def)

text \<open>
  The claim as written fails in the last column: cell 191 of the all-dry sample map has
  \<open>x = 63 = MapMaxX\<close> and \<open>y = 2\<close>, is flat, and is not made sea. Its neighbours are
  scanned, and it ends as \<open>WATER_CLASS_INVALID\<close> or, with the flag unset, as canal.
\<close>

theorem GuessWaterClass_border_counterexample:
  "TileX (sample_map []) 191 = MapMaxX (sample_map [])
   \<and> TileY (sample_map []) 191 = 2
   \<and> tile_at (sample_map []) 191 = Some clear_tile
   \<and> is_flat clear_tile
   \<and> GuessedClass sample_enums (sample_map []) 191 True = Inr WATER_CLASS_INVALID
   \<and> GuessedClass sample_enums (sample_map []) 191 False = Inr WATER_CLASS_CANAL"
  by (simp add: sample_defs water_defs)

section \<open>Exceptions of the migration steps\<close>








subsection \<open>The loop before version 86 leaves at the first exception\<close>












lemma same_tile_fields:
  "c' = c\<lparr>water_class := wc\<rparr> \<Longrightarrow>
   tile_type c' = tile_type c \<and> is_flat c' = is_flat c \<and> is_lock c' = is_lock c
   \<and> is_dock c' = is_dock c \<and> is_buoy c' = is_buoy c"
  by simp










section \<open>Properties of Load_ANIT\<close>


lemma read_entry:
  assumes "entry_size pre6 \<le> length (lb_bytes r)"
  shows "\<exists>tile. (if pre6 then ReadUint16 r else ReadUint32 r)
      = Inr (tile, r\<lparr>lb_bytes := drop (entry_size pre6) (lb_bytes r),
                       lb_consumed := lb_consumed r + entry_size pre6\<rparr>)
    \<and> table_entries pre6 (Suc n) (lb_bytes r)
      = tile # table_entries pre6 n (drop (entry_size pre6) (lb_bytes r))"
proof (cases pre6)
  case True
  with assms obtain b0 b1 bs where "lb_bytes r = b0 # b1 # bs"
    by (cases "lb_bytes r"; cases "tl (lb_bytes r)") (auto simp: entry_size_def)
  then show ?thesis using True by (simp add: ReadUint16_def entry_size_def)
next
  case False
  with assms obtain b0 b1 b2 b3 bs where "lb_bytes r = b0 # b1 # b2 # b3 # bs"
    by (cases "lb_bytes r"; cases "tl (lb_bytes r)"; cases "tl (tl (lb_bytes r))";
        cases "tl (tl (tl (lb_bytes r)))") (auto simp: entry_size_def)
  then show ?thesis using False by (simp add: ReadUint32_def entry_size_def)
qed

lemma take_Suc_update:
  "k < length xs \<Longrightarrow> take (Suc k) (xs[k := x]) = take k xs @ [x]"
  by (simp add: take_Suc_conv_app_nth)

lemma Load_ANIT_legacy_run:
  assumes "n = 256 - animated_tile_count s" and "animated_tile_count s \<le> 256"
    and "n * entry_size pre6 \<le> length (lb_bytes r)"
    and "256 \<le> length (animated_tile_list s)"
  shows "\<exists>r' s'. Load_ANIT_legacy pre6 r s = Inr (r', s')
    \<and> lb_bytes r' = drop (n * entry_size pre6) (lb_bytes r)
    \<and> lb_consumed r' = lb_consumed r + n * entry_size pre6
    \<and> animated_tile_count s'
        = animated_tile_count s
          + length (takeWhile (\<lambda>e. e \<noteq> 0) (table_entries pre6 n (lb_bytes r)))
    \<and> length (animated_tile_list s') = length (animated_tile_list s)
    \<and> take (animated_tile_count s') (animated_tile_list s')
        = take (animated_tile_count s) (animated_tile_list s)
          @ takeWhile (\<lambda>e. e \<noteq> 0) (table_entries pre6 n (lb_bytes r))"
  using assms
proof (induction n arbitrary: r s)
  case 0
  then have "animated_tile_count s = 256" by simp
  then show ?case by (simp add: Load_ANIT_legacy.simps [of pre6 r s])
next
  case (Suc n)
  let ?k = "animated_tile_count s"
  let ?sz = "entry_size pre6"
  from Suc.prems have k: "?k < 256" "n = 255 - ?k" by simp_all
  from Suc.prems(3) have sz: "?sz \<le> length (lb_bytes r)"
    and rest: "n * ?sz \<le> length (drop ?sz (lb_bytes r))"
    by simp_all
  let ?r1 = "r\<lparr>lb_bytes := drop ?sz (lb_bytes r), lb_consumed := lb_consumed r + ?sz\<rparr>"
  from read_entry [OF sz, of n] obtain tile where
    rd: "(if pre6 then ReadUint16 r else ReadUint32 r) = Inr (tile, ?r1)"
    and te: "table_entries pre6 (Suc n) (lb_bytes r)
      = tile # table_entries pre6 n (drop ?sz (lb_bytes r))"
    by blast
  show ?case
  proof (cases "tile = 0")
    case True
    have "Load_ANIT_legacy pre6 r s
        = (case Skip ?r1 (n * ?sz) of Inl e \<Rightarrow> Inl e | Inr r'' \<Rightarrow> Inr (r'', s))"
      using k rd True
      by (subst Load_ANIT_legacy.simps) (simp add: entry_size_def)
    then show ?thesis
      using rest te True by (simp add: Skip_def add.commute)
  next
    case False
    let ?s1 = "s\<lparr>animated_tile_list := (animated_tile_list s)[?k := tile],
                  animated_tile_count := ?k + 1\<rparr>"
    have kl: "?k < length (animated_tile_list s)"
      using k Suc.prems(4) by simp
    have step: "Load_ANIT_legacy pre6 r s = Load_ANIT_legacy pre6 ?r1 ?s1"
      using k rd False kl by (subst Load_ANIT_legacy.simps) simp
    have "\<exists>r' s'. Load_ANIT_legacy pre6 ?r1 ?s1 = Inr (r', s')
      \<and> lb_bytes r' = drop (n * ?sz) (lb_bytes ?r1)
      \<and> lb_consumed r' = lb_consumed ?r1 + n * ?sz
      \<and> animated_tile_count s'
          = animated_tile_count ?s1
            + length (takeWhile (\<lambda>e. e \<noteq> 0) (table_entries pre6 n (lb_bytes ?r1)))
      \<and> length (animated_tile_list s') = length (animated_tile_list ?s1)
      \<and> take (animated_tile_count s') (animated_tile_list s')
          = take (animated_tile_count ?s1) (animated_tile_list ?s1)
            @ takeWhile (\<lambda>e. e \<noteq> 0) (table_entries pre6 n (lb_bytes ?r1))"
      using k rest Suc.prems(4) by (intro Suc.IH) simp_all
    then show ?thesis
      using step te False kl
      by (simp add: take_Suc_update add.commute add.left_commute)
  qed
qed


lemma length_table_entries: "length (table_entries pre6 n bs) \<le> n"
  by (induction pre6 n bs rule: table_entries.induct) simp_all

text \<open>
  Claim C10. For a stream older than legacy version 80 that holds the whole fixed table
  (256 entries of 2 bytes before version 6, of 4 bytes otherwise), \<open>Load_ANIT\<close> returns
  normally having consumed exactly the 256 entries; the animated tiles are the entries
  before the first zero entry, in order; their count is at most 256; and the bytes consumed
  do not depend on where the zero entry is. The table in memory has room for 256 entries,
  as it has from its first allocation.
\<close>

theorem Load_ANIT_legacy_table:
  assumes "IsOTTDVersionBefore reader 80"
    and "pre6 = IsOTTDVersionBefore reader 6"
    and "256 * entry_size pre6 \<le> length (lb_bytes reader)"
    and "256 \<le> length (animated_tile_list s)"
  shows "\<exists>reader' s'. Load_ANIT reader s = Some (Inr (reader', s'))
    \<and> lb_consumed reader' = lb_consumed reader + 256 * entry_size pre6
    \<and> lb_bytes reader' = drop (256 * entry_size pre6) (lb_bytes reader)
    \<and> animated_tile_count s'
        = length (takeWhile (\<lambda>e. e \<noteq> 0) (table_entries pre6 256 (lb_bytes reader)))
    \<and> animated_tile_count s' \<le> 256
    \<and> take (animated_tile_count s') (animated_tile_list s')
        = takeWhile (\<lambda>e. e \<noteq> 0) (table_entries pre6 256 (lb_bytes reader))"
proof -
  let ?s0 = "s\<lparr>animated_tile_count := 0\<rparr>"
  have "\<exists>r' s'. Load_ANIT_legacy pre6 reader ?s0 = Inr (r', s')
    \<and> lb_bytes r' = drop (256 * entry_size pre6) (lb_bytes reader)
    \<and> lb_consumed r' = lb_consumed reader + 256 * entry_size pre6
    \<and> animated_tile_count s'
        = animated_tile_count ?s0
          + length (takeWhile (\<lambda>e. e \<noteq> 0) (table_entries pre6 256 (lb_bytes reader)))
    \<and> length (animated_tile_list s') = length (animated_tile_list ?s0)
    \<and> take (animated_tile_count s') (animated_tile_list s')
        = take (animated_tile_count ?s0) (animated_tile_list ?s0)
          @ takeWhile (\<lambda>e. e \<noteq> 0) (table_entries pre6 256 (lb_bytes reader))"
    using assms(3,4) by (intro Load_ANIT_legacy_run) simp_all
  then obtain r' s' where
    run: "Load_ANIT_legacy pre6 reader ?s0 = Inr (r', s')"
    and b: "lb_bytes r' = drop (256 * entry_size pre6) (lb_bytes reader)"
    and c: "lb_consumed r' = lb_consumed reader + 256 * entry_size pre6"
    and n: "animated_tile_count s'
      = length (takeWhile (\<lambda>e. e \<noteq> 0) (table_entries pre6 256 (lb_bytes reader)))"
    and l: "take (animated_tile_count s') (animated_tile_list s')
      = takeWhile (\<lambda>e. e \<noteq> 0) (table_entries pre6 256 (lb_bytes reader))"
    by auto
  have "length (takeWhile (\<lambda>e. e \<noteq> 0) (table_entries pre6 256 (lb_bytes reader))) \<le> 256"
    using length_takeWhile_le [of "\<lambda>e. e \<noteq> 0" "table_entries pre6 256 (lb_bytes reader)"]
      length_table_entries [of pre6 256 "lb_bytes reader"]
    by linarith
  with n have "animated_tile_count s' \<le> 256" by simp
  moreover have "Load_ANIT reader s = Some (Inr (r', s'))"
    using assms(1,2) run by (simp add: Load_ANIT_def)
  ultimately show ?thesis
    using b c n l by blast
qed

theorem Load_ANIT_legacy_table_witness:
  "\<exists>reader' s'.
     Load_ANIT
       \<lparr>lb_version = \<lparr>major = 5, minor = None\<rparr>,
        lb_bytes = [0, 7, 0, 9, 0, 0] @ replicate 506 255,
        lb_consumed = 0, lb_chunk_size = 512\<rparr>
       \<lparr>animated_tile_list = replicate 256 0, animated_tile_count = 3,
        animated_tile_allocated = 256\<rparr>
       = Some (Inr (reader', s'))
     \<and> lb_consumed reader' = 512
     \<and> lb_bytes reader' = []
     \<and> animated_tile_count s' = 2
     \<and> take (animated_tile_count s') (animated_tile_list s') = [7, 9]"
proof -
  have "takeWhile (\<lambda>e. e \<noteq> 0)
      (table_entries True (Suc (Suc (Suc k))) ([0, 7, 0, 9, 0, 0] @ bs)) = [7, 9]" for k bs
    by (simp add: be16_def)
  from this [of 253 "replicate 506 255"]
  have "takeWhile (\<lambda>e. e \<noteq> 0)
      (table_entries True 256 ([0, 7, 0, 9, 0, 0] @ replicate 506 255)) = [7, 9]"
    by simp
  then show ?thesis
    using Load_ANIT_legacy_table
      [of "\<lparr>lb_version = \<lparr>major = 5, minor = None\<rparr>,
            lb_bytes = [0, 7, 0, 9, 0, 0] @ replicate 506 255,
            lb_consumed = 0, lb_chunk_size = 512\<rparr>" True
          "\<lparr>animated_tile_list = replicate 256 0, animated_tile_count = 3,
            animated_tile_allocated = 256\<rparr>"]
    by (auto simp: IsOTTDVersionBefore_def IsSavegameVersionBefore_def minor_of_def
        entry_size_def numeral_2_eq_2)
qed

section \<open>Properties of the head of AfterLoadGame\<close>

lemma not_before_lower:
  "\<not> IsSavegameVersionBefore stv 184 0 \<Longrightarrow> M < 184 \<Longrightarrow> \<not> IsSavegameVersionBefore stv M m"
  by (simp add: IsSavegameVersionBefore_def split: if_splits)

lemmas head_defs =
  AfterLoadGame_head_def GamelogStart_def FixPauseMode_def FixTileLoop_def
  ConvertCurrency_def OldFixupsA_def OldFixupsB_def FixRoadSide_def CheckNewGRFs_def
  FixDateFract_def BackfillSettings_def doif_def call_def block_def seq_def

lemma CheckNewGRFs_networking:
  "IsGoodGRFConfigList E (grfconfig w) = (gcf_res, cfgs) \<Longrightarrow> gcf_res \<noteq> GLC_ALL_GOOD \<Longrightarrow>
   networking w \<Longrightarrow>
   CheckNewGRFs E w = Inl (SlException STR_NETWORK_ERROR_CLIENT_NEWGRF_MISMATCH)"
  by (simp add: CheckNewGRFs_def)

lemma CheckNewGRFs_single_player:
  "IsGoodGRFConfigList E (grfconfig w) = (gcf_res, cfgs) \<Longrightarrow> gcf_res \<noteq> GLC_ALL_GOOD \<Longrightarrow>
   \<not> networking w \<Longrightarrow>
   CheckNewGRFs E w =
     Inr (w\<lparr>grfconfig := cfgs, gamelog := gamelog w @ GamelogGRFs E cfgs,
            errors_shown := errors_shown w
              @ [if gcf_res = GLC_COMPATIBLE then STR_NEWGRF_COMPATIBLE_LOAD_WARNING
                 else STR_NEWGRF_DISABLED_WARNING],
            pause_mode := (if gcf_res = GLC_NOT_FOUND then PM_PAUSED_ERROR E
                           else pause_mode w)\<rparr>)"
  by (cases gcf_res) (simp_all add: CheckNewGRFs_def)



lemma doif_simps: "doif True f w = f w" "doif False f w = w"
  by (simp_all add: doif_def)

lemma GamelogStart_newest:
  "\<not> IsSavegameVersionBefore stv 98 0 \<Longrightarrow>
   GamelogStart stv w
     = w\<lparr>events := events w @ [Call ''GamelogTestRevision'', Call ''GamelogTestMode'']\<rparr>"
  by (simp add: GamelogStart_def doif_simps call_def seq_def)

lemma FixPauseMode_newest:
  "\<not> IsSavegameVersionBefore stv 119 0 \<Longrightarrow>
   FixPauseMode E stv w =
     (if network_dedicated w \<and> pause_mode w AND PM_PAUSED_ERROR E \<noteq> 0
      then Inl (SlCorrupt ''Savegame paused due to an error state'')
      else Inr (w\<lparr>pause_mode :=
                     (if \<not> networking w \<or> network_server w
                      then pause_mode w AND NOT (PMB_PAUSED_NETWORK E)
                      else pause_mode w)\<rparr>))"
  by (simp add: FixPauseMode_def)

lemma FixTileLoop_eq:
  "FixTileLoop w
     = w\<lparr>cur_tileloop_tile := (if cur_tileloop_tile w = 0 then 1 else cur_tileloop_tile w)\<rparr>"
  by (simp add: FixTileLoop_def)

lemma OldFixupsA_newest:
  "\<not> IsSavegameVersionBefore stv 2 0 \<Longrightarrow> \<not> IsSavegameVersionBefore stv 4 1 \<Longrightarrow>
   OldFixupsA stv w = w\<lparr>events := events w @ [Call ''AfterLoadMap'']\<rparr>"
  by (simp add: OldFixupsA_def doif_simps call_def seq_def)

lemma ConvertCurrency_newest:
  "\<not> IsSavegameVersionBefore stv 4 2 \<Longrightarrow> ConvertCurrency stv w = Inr w"
  by (simp add: ConvertCurrency_def)

lemma OldFixupsB_newest:
  "\<not> IsSavegameVersionBefore stv 4 3 \<Longrightarrow> \<not> IsSavegameVersionBefore stv 84 0 \<Longrightarrow>
   \<not> IsSavegameVersionBefore stv 106 0 \<Longrightarrow>
   OldFixupsB stv w = w\<lparr>events := events w @ [Call ''ResetOldNames'']\<rparr>"
  by (simp add: OldFixupsB_def doif_simps call_def seq_def)

lemma FixRoadSide_eq:
  "FixRoadSide w = w\<lparr>road_side := (if road_side w \<noteq> 0 then 1 else road_side w)\<rparr>"
  by (simp add: FixRoadSide_def)

lemma CheckNewGRFs_eq:
  "IsGoodGRFConfigList E (grfconfig w) = (gcf_res, cfgs) \<Longrightarrow>
   CheckNewGRFs E w =
     (if networking w \<and> gcf_res \<noteq> GLC_ALL_GOOD
      then Inl (SlException STR_NETWORK_ERROR_CLIENT_NEWGRF_MISMATCH)
      else Inr (w\<lparr>grfconfig := cfgs,
                  gamelog := gamelog w @ GamelogGRFs E cfgs,
                  errors_shown := errors_shown w
                    @ (case gcf_res of
                         GLC_ALL_GOOD \<Rightarrow> []
                       | GLC_COMPATIBLE \<Rightarrow> [STR_NEWGRF_COMPATIBLE_LOAD_WARNING]
                       | GLC_NOT_FOUND \<Rightarrow> [STR_NEWGRF_DISABLED_WARNING]),
                  pause_mode := (if gcf_res = GLC_NOT_FOUND then PM_PAUSED_ERROR E
                                 else pause_mode w)\<rparr>))"
  by (cases gcf_res) (simp_all add: CheckNewGRFs_def)

lemma FixDateFract_newest:
  "\<not> IsSavegameVersionBefore stv 11 1 \<Longrightarrow> \<not> IsSavegameVersionBefore stv 147 0 \<Longrightarrow>
   FixDateFract E stv w = w\<lparr>events := events w @ [Call ''SetDate'']\<rparr>"
  by (simp add: FixDateFract_def call_def)

lemma BackfillSettings_newest:
  "\<not> IsSavegameVersionBefore stv 184 0 \<Longrightarrow> BackfillSettings stv w = w"
  by (simp add: BackfillSettings_def doif_simps seq_def not_before_lower)

lemma head_newest:
  assumes v: "\<not> IsSavegameVersionBefore stv 184 0"
    and g: "IsGoodGRFConfigList E (grfconfig w) = (gcf_res, cfgs)"
  shows "AfterLoadGame_head E stv w =
    (if network_dedicated w \<and> pause_mode w AND PM_PAUSED_ERROR E \<noteq> 0
     then Inl (SlCorrupt ''Savegame paused due to an error state'')
     else if networking w \<and> gcf_res \<noteq> GLC_ALL_GOOD
     then Inl (SlException STR_NETWORK_ERROR_CLIENT_NEWGRF_MISMATCH)
     else Inr (w\<lparr>pause_mode :=
                    (if gcf_res = GLC_NOT_FOUND then PM_PAUSED_ERROR E
                     else if \<not> networking w \<or> network_server w
                     then pause_mode w AND NOT (PMB_PAUSED_NETWORK E)
                     else pause_mode w),
                 cur_tileloop_tile :=
                    (if cur_tileloop_tile w = 0 then 1 else cur_tileloop_tile w),
                 road_side := (if road_side w \<noteq> 0 then 1 else road_side w),
                 grfconfig := cfgs,
                 gamelog := gamelog w @ GamelogGRFs E cfgs,
                 errors_shown := errors_shown w
                    @ (case gcf_res of
                         GLC_ALL_GOOD \<Rightarrow> []
                       | GLC_COMPATIBLE \<Rightarrow> [STR_NEWGRF_COMPATIBLE_LOAD_WARNING]
                       | GLC_NOT_FOUND \<Rightarrow> [STR_NEWGRF_DISABLED_WARNING]),
                 events := events w
                    @ [Call ''GamelogTestRevision'', Call ''GamelogTestMode'',
                       Call ''AfterLoadMap'', Call ''ResetOldNames'', Call ''SetDate'']\<rparr>))"
proof -
  have b: "\<not> IsSavegameVersionBefore stv M m" if "M < 184" for M m
    using v that by (rule not_before_lower)
  show ?thesis
  proof (cases "network_dedicated w \<and> pause_mode w AND PM_PAUSED_ERROR E \<noteq> 0")
    case True
    then show ?thesis
      by (simp add: AfterLoadGame_head_def GamelogStart_newest FixPauseMode_newest b)
  next
    case False
    show ?thesis
    proof (cases "networking w \<and> gcf_res \<noteq> GLC_ALL_GOOD")
      case True
      then show ?thesis
        using False g
        by (simp add: AfterLoadGame_head_def GamelogStart_newest FixPauseMode_newest
            FixTileLoop_eq OldFixupsA_newest ConvertCurrency_newest OldFixupsB_newest
            FixRoadSide_eq CheckNewGRFs_eq [where gcf_res = gcf_res and cfgs = cfgs] b)
    next
      case nomismatch: False
      then show ?thesis
        using False g
        by (simp add: AfterLoadGame_head_def GamelogStart_newest FixPauseMode_newest
            FixTileLoop_eq OldFixupsA_newest ConvertCurrency_newest OldFixupsB_newest
            FixRoadSide_eq CheckNewGRFs_eq [where gcf_res = gcf_res and cfgs = cfgs]
            FixDateFract_newest BackfillSettings_newest [OF v] b)
    qed
  qed
qed


text \<open>
  Claim C6. When the check of the content packs yields anything but \<open>GLC_ALL_GOOD\<close>: in a
  networking context the pass leaves with the exception
  \<open>STR_NETWORK_ERROR_CLIENT_NEWGRF_MISMATCH\<close>; otherwise it goes on, having shown one
  warning, and for missing content having set the pause mode to \<open>PM_PAUSED_ERROR\<close>. The
  last part states the same of the whole head of the pass for a snapshot of the newest
  version.
\<close>

theorem NewGRF_compatibility_policy:
  assumes "IsGoodGRFConfigList E (grfconfig w) = (gcf_res, cfgs)"
    and "gcf_res \<noteq> GLC_ALL_GOOD"
  shows
    "(networking w \<longrightarrow>
        CheckNewGRFs E w = Inl (SlException STR_NETWORK_ERROR_CLIENT_NEWGRF_MISMATCH))
     \<and> (\<not> networking w \<longrightarrow>
        CheckNewGRFs E w =
          Inr (w\<lparr>grfconfig := cfgs, gamelog := gamelog w @ GamelogGRFs E cfgs,
                 errors_shown := errors_shown w
                   @ [if gcf_res = GLC_COMPATIBLE then STR_NEWGRF_COMPATIBLE_LOAD_WARNING
                      else STR_NEWGRF_DISABLED_WARNING],
                 pause_mode := (if gcf_res = GLC_NOT_FOUND then PM_PAUSED_ERROR E
                                else pause_mode w)\<rparr>))
     \<and> (\<not> IsSavegameVersionBefore stv 184 0
          \<and> \<not> (network_dedicated w \<and> pause_mode w AND PM_PAUSED_ERROR E \<noteq> 0) \<longrightarrow>
        (networking w \<longrightarrow>
           AfterLoadGame_head E stv w
             = Inl (SlException STR_NETWORK_ERROR_CLIENT_NEWGRF_MISMATCH))
        \<and> (\<not> networking w \<longrightarrow>
           (\<exists>w'. AfterLoadGame_head E stv w = Inr w'
              \<and> errors_shown w' = errors_shown w
                   @ [if gcf_res = GLC_COMPATIBLE then STR_NEWGRF_COMPATIBLE_LOAD_WARNING
                      else STR_NEWGRF_DISABLED_WARNING]
              \<and> (gcf_res = GLC_NOT_FOUND \<longrightarrow> pause_mode w' = PM_PAUSED_ERROR E))))"
proof (intro conjI impI)
  assume "networking w"
  then show "CheckNewGRFs E w = Inl (SlException STR_NETWORK_ERROR_CLIENT_NEWGRF_MISMATCH)"
    using assms by (simp add: CheckNewGRFs_networking)
next
  assume "\<not> networking w"
  then show "CheckNewGRFs E w =
      Inr (w\<lparr>grfconfig := cfgs, gamelog := gamelog w @ GamelogGRFs E cfgs,
             errors_shown := errors_shown w
               @ [if gcf_res = GLC_COMPATIBLE then STR_NEWGRF_COMPATIBLE_LOAD_WARNING
                  else STR_NEWGRF_DISABLED_WARNING],
             pause_mode := (if gcf_res = GLC_NOT_FOUND then PM_PAUSED_ERROR E
                            else pause_mode w)\<rparr>)"
    using assms by (simp add: CheckNewGRFs_single_player)
next
  assume a: "\<not> IsSavegameVersionBefore stv 184 0
    \<and> \<not> (network_dedicated w \<and> pause_mode w AND PM_PAUSED_ERROR E \<noteq> 0)"
  assume "networking w"
  then show "AfterLoadGame_head E stv w
      = Inl (SlException STR_NETWORK_ERROR_CLIENT_NEWGRF_MISMATCH)"
    using a assms(2) head_newest [OF _ assms(1), of stv] by simp
next
  assume a: "\<not> IsSavegameVersionBefore stv 184 0
    \<and> \<not> (network_dedicated w \<and> pause_mode w AND PM_PAUSED_ERROR E \<noteq> 0)"
  assume "\<not> networking w"
  then show "\<exists>w'. AfterLoadGame_head E stv w = Inr w'
      \<and> errors_shown w' = errors_shown w
           @ [if gcf_res = GLC_COMPATIBLE then STR_NEWGRF_COMPATIBLE_LOAD_WARNING
              else STR_NEWGRF_DISABLED_WARNING]
      \<and> (gcf_res = GLC_NOT_FOUND \<longrightarrow> pause_mode w' = PM_PAUSED_ERROR E)"
    using a assms(2) head_newest [OF _ assms(1), of stv]
    by (cases gcf_res) simp_all
qed

theorem NewGRF_compatibility_policy_witness:
  "CheckNewGRFs (sample_env GLC_NOT_FOUND) sample_world =
     Inr (sample_world\<lparr>errors_shown := [STR_NEWGRF_DISABLED_WARNING], pause_mode := 8\<rparr>)
   \<and> CheckNewGRFs (sample_env GLC_COMPATIBLE) (sample_world\<lparr>networking := True\<rparr>)
     = Inl (SlException STR_NETWORK_ERROR_CLIENT_NEWGRF_MISMATCH)
   \<and> AfterLoadGame_head (sample_env GLC_COMPATIBLE) \<lparr>major = 184, minor = None\<rparr>
       (sample_world\<lparr>networking := True\<rparr>)
     = Inl (SlException STR_NETWORK_ERROR_CLIENT_NEWGRF_MISMATCH)"
  using
    NewGRF_compatibility_policy
      [of "sample_env GLC_NOT_FOUND" sample_world GLC_NOT_FOUND "[]"
          "\<lparr>major = 184, minor = None\<rparr>"]
    NewGRF_compatibility_policy
      [of "sample_env GLC_COMPATIBLE" "sample_world\<lparr>networking := True\<rparr>" GLC_COMPATIBLE
          "[]" "\<lparr>major = 184, minor = None\<rparr>"]
  by (simp add: sample_env_def sample_world_def IsSavegameVersionBefore_def minor_of_def)

section \<open>Properties of the objects made for object tiles\<close>


lemma for_all_object_tiles_snoc:
  "for_all_object_tiles body s (ts @ [t]) =
     (case for_all_object_tiles body s ts of Inl e \<Rightarrow> Inl e | Inr s' \<Rightarrow> body s' t)"
  by (induction ts arbitrary: s) (auto split: sum.splits)

lemma northern_tile_le: "northern_tile m i off \<le> int i"
  by (simp add: northern_tile_def)

lemma unat_of_nat_index:
  "k < 65536 \<Longrightarrow> unat (of_nat k :: 16 word) = k"
  by (simp add: unat_of_nat)

lemma objects_made_start:
  "object_pool s = [] \<Longrightarrow> objects_made (the_map s) 0 s"
  by (simp add: objects_made_def)

lemma MakeObject_other:
  assumes inv: "objects_made m0 n s" and n: "n < length (tiles m0)"
    and ty: "tile_type (tiles m0 ! n) \<noteq> MP_OBJECT"
  shows "MakeObject K E s n = Inr s" and "objects_made m0 (Suc n) s"
proof -
  from inv n have c: "tile_at (the_map s) (int n) = Some (tiles m0 ! n)"
    by (simp add: objects_made_def tile_at_def)
  then show "MakeObject K E s n = Inr s"
    using ty by (simp add: MakeObject_def)
  have "\<not> root_cell m0 n" "\<not> offset_cell m0 n"
    using ty by (simp_all add: root_cell_def offset_cell_def)
  then show "objects_made m0 (Suc n) s"
    using inv by (auto simp: objects_made_def less_Suc_eq)
qed


lemma MakeObject_root:
  assumes inv: "objects_made m0 n s" and n: "n < length (tiles m0)"
    and towns: "0 < num_towns E" and cap: "object_pool_capacity E \<le> 65536"
    and root: "root_cell m0 n"
    and run: "MakeObject K E s n = Inr s'"
  shows "objects_made m0 (Suc n) s'"
proof -
  let ?c = "tiles m0 ! n"
  let ?k = "length (object_pool s)"
  from inv n have c: "tile_at (the_map s) (int n) = Some ?c"
    and len: "length (tiles (the_map s)) = length (tiles m0)"
    by (simp_all add: objects_made_def tile_at_def)
  from root have ty: "tile_type ?c = MP_OBJECT" and off: "m4 ?c = 0"
    by (simp_all add: root_cell_def)
  from run c ty off towns have room: "?k < object_pool_capacity E"
    by (auto simp: MakeObject_def Let_def split: if_splits)
  then have k: "unat (of_nat ?k :: 16 word) = ?k"
    using cap by (simp add: unat_of_nat_index)
  from run c ty off towns room obtain o' where
    s': "s' = s\<lparr>the_map := set_tile (set_tile (the_map s) n (?c\<lparr>m4 := 0\<rparr>)) n
                    (?c\<lparr>m4 := 0, m2 := of_nat ?k\<rparr>),
                 object_pool := object_pool s @ [o'],
                 type_count := (type_count s)
                    (object_type ?c := type_count s (object_type ?c) + 1)\<rparr>"
    and o': "location_tile o' = n"
    by (auto simp: MakeObject_def Let_def)
  have tiles': "tiles (the_map s') = (tiles (the_map s))[n := ?c\<lparr>m4 := 0, m2 := of_nat ?k\<rparr>]"
    by (simp add: s' set_tile_def)
  have nth_n: "tiles (the_map s') ! n = ?c\<lparr>m4 := 0, m2 := of_nat ?k\<rparr>"
    using n len by (simp add: tiles')
  have nth_other: "tiles (the_map s') ! i = tiles (the_map s) ! i" if "i \<noteq> n" for i
    using that by (simp add: tiles')
  have f: "filter (root_cell m0) [0..<Suc n] = filter (root_cell m0) [0..<n] @ [n]"
    using root by simp
  have north: "nat (northern_tile m0 i off) \<noteq> n" if "i < n" for i off
    using that northern_tile_le [of m0 i off] by linarith
  show ?thesis
    unfolding objects_made_def
  proof (intro conjI allI impI)
    show "MapSizeX (the_map s') = MapSizeX m0" "MapSizeY (the_map s') = MapSizeY m0"
      using inv by (simp_all add: s' set_tile_def objects_made_def)
    show "length (tiles (the_map s')) = length (tiles m0)"
      using len by (simp add: tiles')
    show "map location_tile (object_pool s') = filter (root_cell m0) [0..<Suc n]"
      using inv o' by (simp add: f s' objects_made_def del: upt_Suc)
  next
    fix i assume "i < length (tiles m0)" "Suc n \<le> i"
    then show "tiles (the_map s') ! i = tiles m0 ! i"
      using inv by (simp add: nth_other objects_made_def)
  next
    fix i assume "i < length (tiles m0)"
    then show "tile_type (tiles (the_map s') ! i) = tile_type (tiles m0 ! i)"
      using inv nth_n nth_other [of i] by (cases "i = n") (simp_all add: objects_made_def)
  next
    fix i assume i: "i < Suc n" "root_cell m0 i"
    show "unat (m2 (tiles (the_map s') ! i)) < length (object_pool s')"
      and "location_tile (object_pool s' ! unat (m2 (tiles (the_map s') ! i))) = i"
    proof -
      have "unat (m2 (tiles (the_map s') ! i)) < length (object_pool s')
        \<and> location_tile (object_pool s' ! unat (m2 (tiles (the_map s') ! i))) = i"
      proof (cases "i = n")
        case True
        then show ?thesis using nth_n k o' by (simp add: s')
      next
        case False
        with i have "i < n" by simp
        with inv i(2) have
          "unat (m2 (tiles (the_map s) ! i)) < length (object_pool s)
           \<and> location_tile (object_pool s ! unat (m2 (tiles (the_map s) ! i))) = i"
          unfolding objects_made_def by blast
        then show ?thesis
          using False nth_other [of i] by (simp add: s' nth_append)
      qed
      then show "unat (m2 (tiles (the_map s') ! i)) < length (object_pool s')"
        and "location_tile (object_pool s' ! unat (m2 (tiles (the_map s') ! i))) = i"
        by simp_all
    qed
  next
    fix i assume i: "i < Suc n" "offset_cell m0 i"
    have "i \<noteq> n" using i(2) root by (auto simp: root_cell_def offset_cell_def)
    with i have lt: "i < n" by simp
    with inv i(2) have old:
      "0 \<le> northern_tile m0 i (m4 (tiles m0 ! i))
       \<and> tile_type (tiles m0 ! nat (northern_tile m0 i (m4 (tiles m0 ! i)))) = MP_OBJECT
       \<and> m2 (tiles (the_map s) ! i)
           = m2 (tiles (the_map s) ! nat (northern_tile m0 i (m4 (tiles m0 ! i))))"
      unfolding objects_made_def by blast
    then show "0 \<le> northern_tile m0 i (m4 (tiles m0 ! i))"
      and "tile_type (tiles m0 ! nat (northern_tile m0 i (m4 (tiles m0 ! i)))) = MP_OBJECT"
      and "m2 (tiles (the_map s') ! i)
           = m2 (tiles (the_map s') ! nat (northern_tile m0 i (m4 (tiles m0 ! i))))"
      using nth_other [OF \<open>i \<noteq> n\<close>] nth_other [OF north [OF lt]] by simp_all
  qed
qed


lemma MakeObject_offset:
  assumes inv: "objects_made m0 n s" and n: "n < length (tiles m0)"
    and towns: "0 < num_towns E"
    and offc: "offset_cell m0 n"
    and run: "MakeObject K E s n = Inr s'"
  shows "objects_made m0 (Suc n) s'"
proof -
  let ?c = "tiles m0 ! n"
  let ?m1 = "set_tile (the_map s) n (?c\<lparr>m4 := 0\<rparr>)"
  let ?nt = "northern_tile m0 n (m4 ?c)"
  from inv n have c: "tile_at (the_map s) (int n) = Some ?c"
    and len: "length (tiles (the_map s)) = length (tiles m0)"
    and sx: "MapSizeX (the_map s) = MapSizeX m0"
    by (simp_all add: objects_made_def tile_at_def)
  from offc have ty: "tile_type ?c = MP_OBJECT" and off: "m4 ?c \<noteq> 0"
    by (simp_all add: offset_cell_def)
  have nt: "northern_tile ?m1 n (m4 ?c) = ?nt"
    using sx by (simp add: northern_tile_def set_tile_def TileXY_def)
  from run c ty off towns nt obtain r where
    r: "tile_at ?m1 ?nt = Some r" "tile_type r = MP_OBJECT"
    and s': "s' = s\<lparr>the_map := set_tile ?m1 n (?c\<lparr>m4 := 0, m2 := m2 r\<rparr>)\<rparr>"
    by (auto simp: MakeObject_def Let_def split: option.splits if_splits)
  from r(1) have nt0: "0 \<le> ?nt" and ntl: "nat ?nt < length (tiles m0)"
    and r_eq: "r = tiles ?m1 ! nat ?nt"
    using len by (auto simp: tile_at_def set_tile_def split: if_splits)
  have tiles': "tiles (the_map s') = (tiles (the_map s))[n := ?c\<lparr>m4 := 0, m2 := m2 r\<rparr>]"
    by (simp add: s' set_tile_def)
  have nth_n: "tiles (the_map s') ! n = ?c\<lparr>m4 := 0, m2 := m2 r\<rparr>"
    using n len by (simp add: tiles')
  have nth_other: "tiles (the_map s') ! i = tiles (the_map s) ! i" if "i \<noteq> n" for i
    using that by (simp add: tiles')
  have types: "tile_type (tiles (the_map s) ! i) = tile_type (tiles m0 ! i)"
    if "i < length (tiles m0)" for i
    using inv that unfolding objects_made_def by blast
  have rty: "tile_type (tiles m0 ! nat ?nt) = MP_OBJECT"
  proof (cases "nat ?nt = n")
    case True
    then show ?thesis using ty by simp
  next
    case False
    then have "r = tiles (the_map s) ! nat ?nt"
      using r_eq by (simp add: set_tile_def)
    then show ?thesis using r(2) types [OF ntl] by simp
  qed
  have m2n: "m2 (tiles (the_map s') ! n) = m2 (tiles (the_map s') ! nat ?nt)"
  proof (cases "nat ?nt = n")
    case True
    then show ?thesis by simp
  next
    case False
    then have "r = tiles (the_map s) ! nat ?nt"
      using r_eq by (simp add: set_tile_def)
    then show ?thesis
      using nth_n nth_other [OF False] by simp
  qed
  have f: "filter (root_cell m0) [0..<Suc n] = filter (root_cell m0) [0..<n]"
    using offc by (simp add: root_cell_def offset_cell_def)
  have north: "nat (northern_tile m0 i off) \<noteq> n" if "i < n" for i off
    using that northern_tile_le [of m0 i off] by linarith
  show ?thesis
    unfolding objects_made_def
  proof (intro conjI allI impI)
    show "MapSizeX (the_map s') = MapSizeX m0" "MapSizeY (the_map s') = MapSizeY m0"
      using inv by (simp_all add: s' set_tile_def objects_made_def)
    show "length (tiles (the_map s')) = length (tiles m0)"
      using len by (simp add: tiles')
    show "map location_tile (object_pool s') = filter (root_cell m0) [0..<Suc n]"
      using inv by (simp add: f s' objects_made_def del: upt_Suc)
  next
    fix i assume "i < length (tiles m0)" "Suc n \<le> i"
    then show "tiles (the_map s') ! i = tiles m0 ! i"
      using inv by (simp add: nth_other objects_made_def)
  next
    fix i assume "i < length (tiles m0)"
    then show "tile_type (tiles (the_map s') ! i) = tile_type (tiles m0 ! i)"
      using types [of i] nth_n nth_other [of i] ty by (cases "i = n") simp_all
  next
    fix i assume i: "i < Suc n" "root_cell m0 i"
    have "i \<noteq> n" using i(2) offc by (auto simp: root_cell_def offset_cell_def)
    with i have "i < n" by simp
    with inv i(2) have
      "unat (m2 (tiles (the_map s) ! i)) < length (object_pool s)
       \<and> location_tile (object_pool s ! unat (m2 (tiles (the_map s) ! i))) = i"
      unfolding objects_made_def by blast
    then show "unat (m2 (tiles (the_map s') ! i)) < length (object_pool s')"
      and "location_tile (object_pool s' ! unat (m2 (tiles (the_map s') ! i))) = i"
      using nth_other [OF \<open>i \<noteq> n\<close>] by (simp_all add: s')
  next
    fix i assume i: "i < Suc n" "offset_cell m0 i"
    have "0 \<le> northern_tile m0 i (m4 (tiles m0 ! i))
       \<and> tile_type (tiles m0 ! nat (northern_tile m0 i (m4 (tiles m0 ! i)))) = MP_OBJECT
       \<and> m2 (tiles (the_map s') ! i)
           = m2 (tiles (the_map s') ! nat (northern_tile m0 i (m4 (tiles m0 ! i))))"
    proof (cases "i = n")
      case True
      then show ?thesis using nt0 rty m2n by simp
    next
      case False
      with i have lt: "i < n" by simp
      with inv i(2) have
        "0 \<le> northern_tile m0 i (m4 (tiles m0 ! i))
         \<and> tile_type (tiles m0 ! nat (northern_tile m0 i (m4 (tiles m0 ! i)))) = MP_OBJECT
         \<and> m2 (tiles (the_map s) ! i)
             = m2 (tiles (the_map s) ! nat (northern_tile m0 i (m4 (tiles m0 ! i))))"
        unfolding objects_made_def by blast
      then show ?thesis
        using nth_other [OF False] nth_other [OF north [OF lt]] by simp
    qed
    then show "0 \<le> northern_tile m0 i (m4 (tiles m0 ! i))"
      and "tile_type (tiles m0 ! nat (northern_tile m0 i (m4 (tiles m0 ! i)))) = MP_OBJECT"
      and "m2 (tiles (the_map s') ! i)
           = m2 (tiles (the_map s') ! nat (northern_tile m0 i (m4 (tiles m0 ! i))))"
      by simp_all
  qed
qed

lemma MakeObject_step:
  assumes "objects_made m0 n s" and "n < length (tiles m0)"
    and "0 < num_towns E" and "object_pool_capacity E \<le> 65536"
    and "MakeObject K E s n = Inr s'"
  shows "objects_made m0 (Suc n) s'"
proof (cases "tile_type (tiles m0 ! n) = MP_OBJECT")
  case False
  then show ?thesis
    using MakeObject_other(1) [OF assms(1,2) False, of K E]
      MakeObject_other(2) [OF assms(1,2) False] assms(5)
    by simp
next
  case True
  show ?thesis
  proof (cases "m4 (tiles m0 ! n) = 0")
    case zero: True
    then have "root_cell m0 n" using True by (simp add: root_cell_def)
    then show ?thesis using MakeObject_root [OF assms(1-4) _ assms(5)] by blast
  next
    case False
    then have "offset_cell m0 n" using True by (simp add: offset_cell_def)
    then show ?thesis using MakeObject_offset [OF assms(1-3) _ assms(5)] by blast
  qed
qed

lemma for_all_object_tiles_made:
  assumes "objects_made m0 0 s0" and "0 < num_towns E" and "object_pool_capacity E \<le> 65536"
  shows "n \<le> length (tiles m0) \<Longrightarrow>
    for_all_object_tiles (MakeObject K E) s0 [0..<n] = Inr s' \<Longrightarrow> objects_made m0 n s'"
proof (induction n arbitrary: s')
  case 0
  then show ?case using assms(1) by simp
next
  case (Suc n)
  from Suc.prems(2) obtain s1 where
    s1: "for_all_object_tiles (MakeObject K E) s0 [0..<n] = Inr s1"
    and step: "MakeObject K E s1 n = Inr s'"
    by (auto simp: for_all_object_tiles_snoc split: sum.splits)
  have "objects_made m0 n s1"
    using Suc.IH [OF _ s1] Suc.prems(1) by simp
  then show ?case
    using MakeObject_step [OF _ _ assms(2,3) step] Suc.prems(1) by simp
qed


lemma MakeObjects147_made:
  assumes "IsSavegameVersionBefore stv 147 0" and "object_pool s = []"
    and "0 < num_towns E" and "object_pool_capacity E \<le> 65536"
    and "length (tiles (the_map s)) = MapSize (the_map s)"
    and "MakeObjects147 K E stv s = Inr s'"
  shows "objects_made (the_map s) (MapSize (the_map s)) s'"
proof -
  have "for_all_object_tiles (MakeObject K E) s [0..<MapSize (the_map s)] = Inr s'"
    using assms(1,2,6) by (simp add: MakeObjects147_def)
  then show ?thesis
    using for_all_object_tiles_made [OF objects_made_start [OF assms(2)] assms(3,4)] assms(5)
    by simp
qed

lemma length_filter_upt_card:
  "length (filter P [0..<n]) = card {t. t < n \<and> P t}"
proof -
  have "card {t. t < n \<and> P t} = card (set (filter P [0..<n]))"
    by (rule arg_cong [where f = card]) auto
  also have "\<dots> = length (filter P [0..<n])"
    by (rule distinct_card) simp
  finally show ?thesis by simp
qed

lemma length_filter_upt_mono:
  "n \<le> N \<Longrightarrow> length (filter P [0..<n]) \<le> length (filter P [0..<N])"
proof -
  assume "n \<le> N"
  then have "[0..<N] = [0..<n] @ [n..<N]"
    by (metis le0 upt_add_eq_append le_add_diff_inverse)
  then show ?thesis by simp
qed

lemma MakeObject_succeeds:
  assumes inv: "objects_made m0 n s" and n: "n < length (tiles m0)"
    and towns: "0 < num_towns E"
    and room: "root_cell m0 n \<Longrightarrow> length (object_pool s) < object_pool_capacity E"
    and north: "offset_cell m0 n \<Longrightarrow>
      0 \<le> northern_tile m0 n (m4 (tiles m0 ! n))
      \<and> nat (northern_tile m0 n (m4 (tiles m0 ! n))) < length (tiles m0)
      \<and> tile_type (tiles m0 ! nat (northern_tile m0 n (m4 (tiles m0 ! n)))) = MP_OBJECT"
  shows "\<exists>s'. MakeObject K E s n = Inr s'"
proof (cases "tile_type (tiles m0 ! n) = MP_OBJECT")
  case False
  then show ?thesis using MakeObject_other(1) [OF inv n False] by blast
next
  case True
  let ?c = "tiles m0 ! n"
  from inv n have c: "tile_at (the_map s) (int n) = Some ?c"
    and len: "length (tiles (the_map s)) = length (tiles m0)"
    and sx: "MapSizeX (the_map s) = MapSizeX m0"
    by (simp_all add: objects_made_def tile_at_def)
  show ?thesis
  proof (cases "m4 ?c = 0")
    case zero: True
    then have "root_cell m0 n" using True by (simp add: root_cell_def)
    then show ?thesis
      using room c True zero towns by (simp add: MakeObject_def Let_def)
  next
    case False
    let ?m1 = "set_tile (the_map s) n (?c\<lparr>m4 := 0\<rparr>)"
    let ?nt = "northern_tile m0 n (m4 ?c)"
    have "offset_cell m0 n" using True False by (simp add: offset_cell_def)
    from north [OF this] have nt: "0 \<le> ?nt" "nat ?nt < length (tiles m0)"
      "tile_type (tiles m0 ! nat ?nt) = MP_OBJECT"
      by simp_all
    have nteq: "northern_tile ?m1 n (m4 ?c) = ?nt"
      using sx by (simp add: northern_tile_def set_tile_def TileXY_def)
    have at: "tile_at ?m1 ?nt = Some (tiles ?m1 ! nat ?nt)"
      using nt(1,2) len by (simp add: tile_at_def set_tile_def)
    have "tile_type (tiles ?m1 ! nat ?nt) = MP_OBJECT"
    proof (cases "nat ?nt = n")
      case True
      then show ?thesis using n len \<open>tile_type ?c = MP_OBJECT\<close> by (simp add: set_tile_def)
    next
      case neq: False
      have "tile_type (tiles (the_map s) ! nat ?nt) = tile_type (tiles m0 ! nat ?nt)"
        using inv nt(2) unfolding objects_made_def by blast
      then show ?thesis using neq nt(3) by (simp add: set_tile_def)
    qed
    then show ?thesis
      using c True False towns nteq at by (simp add: MakeObject_def Let_def)
  qed
qed

lemma for_all_object_tiles_succeeds:
  assumes start: "objects_made m0 0 s0" and towns: "0 < num_towns E"
    and cap: "object_pool_capacity E \<le> 65536"
    and room: "length (filter (root_cell m0) [0..<length (tiles m0)]) \<le> object_pool_capacity E"
    and north: "\<And>t. t < length (tiles m0) \<Longrightarrow> offset_cell m0 t \<Longrightarrow>
      0 \<le> northern_tile m0 t (m4 (tiles m0 ! t))
      \<and> nat (northern_tile m0 t (m4 (tiles m0 ! t))) < length (tiles m0)
      \<and> tile_type (tiles m0 ! nat (northern_tile m0 t (m4 (tiles m0 ! t)))) = MP_OBJECT"
  shows "n \<le> length (tiles m0) \<Longrightarrow>
    \<exists>s'. for_all_object_tiles (MakeObject K E) s0 [0..<n] = Inr s'"
proof (induction n)
  case 0
  then show ?case by simp
next
  case (Suc n)
  then obtain s1 where s1: "for_all_object_tiles (MakeObject K E) s0 [0..<n] = Inr s1"
    by auto
  have inv: "objects_made m0 n s1"
    using for_all_object_tiles_made [OF start towns cap _ s1] Suc.prems by simp
  have n: "n < length (tiles m0)" using Suc.prems by simp
  have "length (object_pool s1) < object_pool_capacity E" if r: "root_cell m0 n"
  proof -
    have "length (object_pool s1) = length (filter (root_cell m0) [0..<n])"
      using inv unfolding objects_made_def by (metis length_map)
    moreover have "length (filter (root_cell m0) [0..<Suc n])
        \<le> length (filter (root_cell m0) [0..<length (tiles m0)])"
      using Suc.prems by (rule length_filter_upt_mono)
    ultimately show ?thesis using r room by simp
  qed
  then obtain s' where "MakeObject K E s1 n = Inr s'"
    using MakeObject_succeeds [OF inv n towns _ north [OF n], of K] by blast
  then show ?case
    using s1 by (simp add: for_all_object_tiles_snoc)
qed


text \<open>
  Claim C4. For a snapshot older than version 147 with an empty object pool and at least
  one town, on a map whose array has \<open>MapSize\<close> cells, with a pool of at most 65536 objects
  (an index fits the 16 bits of \<open>m2\<close>): when the block returns,
  \<^item> the pool holds exactly one object for each object cell with offset zero, in the order
    of the cells, and no other object;
  \<^item> the \<open>m2\<close> of such a cell is the index of the object located at that cell;
  \<^item> the \<open>m2\<close> of an object cell with a non-zero offset equals the \<open>m2\<close> of the northern
    cell its offset points to, which is an object cell; when that cell has offset zero, it
    is the index of the object located there.
  And the block does return when the pool has room for the cells with offset zero and
  every non-zero offset points to an object cell of the map.
\<close>

theorem objects_for_object_tiles:
  assumes "IsSavegameVersionBefore stv 147 0" and "object_pool s = []"
    and "0 < num_towns E" and "object_pool_capacity E \<le> 65536"
    and "length (tiles (the_map s)) = MapSize (the_map s)"
  shows
    "(MakeObjects147 K E stv s = Inr s' \<longrightarrow>
        map location_tile (object_pool s')
          = filter (root_cell (the_map s)) [0..<MapSize (the_map s)]
        \<and> length (object_pool s')
          = card {t. t < MapSize (the_map s) \<and> root_cell (the_map s) t}
        \<and> (\<forall>t < MapSize (the_map s). root_cell (the_map s) t \<longrightarrow>
              unat (m2 (tiles (the_map s') ! t)) < length (object_pool s')
              \<and> location_tile (object_pool s' ! unat (m2 (tiles (the_map s') ! t))) = t)
        \<and> (\<forall>t < MapSize (the_map s). offset_cell (the_map s) t \<longrightarrow>
              0 \<le> northern_tile (the_map s) t (m4 (tiles (the_map s) ! t))
              \<and> tile_type (tiles (the_map s)
                    ! nat (northern_tile (the_map s) t (m4 (tiles (the_map s) ! t))))
                  = MP_OBJECT
              \<and> m2 (tiles (the_map s') ! t)
                  = m2 (tiles (the_map s')
                      ! nat (northern_tile (the_map s) t (m4 (tiles (the_map s) ! t))))
              \<and> (root_cell (the_map s)
                    (nat (northern_tile (the_map s) t (m4 (tiles (the_map s) ! t)))) \<longrightarrow>
                  location_tile (object_pool s' ! unat (m2 (tiles (the_map s') ! t)))
                    = nat (northern_tile (the_map s) t (m4 (tiles (the_map s) ! t))))))
     \<and> (length (filter (root_cell (the_map s)) [0..<MapSize (the_map s)])
          \<le> object_pool_capacity E
        \<and> list_all
            (\<lambda>t. offset_cell (the_map s) t \<longrightarrow>
               0 \<le> northern_tile (the_map s) t (m4 (tiles (the_map s) ! t))
               \<and> nat (northern_tile (the_map s) t (m4 (tiles (the_map s) ! t)))
                   < MapSize (the_map s)
               \<and> tile_type (tiles (the_map s)
                     ! nat (northern_tile (the_map s) t (m4 (tiles (the_map s) ! t))))
                   = MP_OBJECT)
            [0..<MapSize (the_map s)] \<longrightarrow>
        (\<exists>s''. MakeObjects147 K E stv s = Inr s''))"
proof (intro conjI impI)
  let ?m = "the_map s"
  let ?N = "MapSize ?m"
  assume run: "MakeObjects147 K E stv s = Inr s'"
  have inv: "objects_made ?m ?N s'"
    using MakeObjects147_made [OF assms run] .
  show pool: "map location_tile (object_pool s') = filter (root_cell ?m) [0..<?N]"
    using inv unfolding objects_made_def by blast
  have "length (object_pool s') = length (filter (root_cell ?m) [0..<?N])"
    using pool by (metis length_map)
  then show "length (object_pool s') = card {t. t < ?N \<and> root_cell ?m t}"
    by (simp add: length_filter_upt_card)
  have roots: "unat (m2 (tiles (the_map s') ! t)) < length (object_pool s')
      \<and> location_tile (object_pool s' ! unat (m2 (tiles (the_map s') ! t))) = t"
    if "t < ?N" "root_cell ?m t" for t
    using inv that unfolding objects_made_def by blast
  then show "\<forall>t < ?N. root_cell ?m t \<longrightarrow>
      unat (m2 (tiles (the_map s') ! t)) < length (object_pool s')
      \<and> location_tile (object_pool s' ! unat (m2 (tiles (the_map s') ! t))) = t"
    by blast
  show "\<forall>t < ?N. offset_cell ?m t \<longrightarrow>
      0 \<le> northern_tile ?m t (m4 (tiles ?m ! t))
      \<and> tile_type (tiles ?m ! nat (northern_tile ?m t (m4 (tiles ?m ! t)))) = MP_OBJECT
      \<and> m2 (tiles (the_map s') ! t)
          = m2 (tiles (the_map s') ! nat (northern_tile ?m t (m4 (tiles ?m ! t))))
      \<and> (root_cell ?m (nat (northern_tile ?m t (m4 (tiles ?m ! t)))) \<longrightarrow>
          location_tile (object_pool s' ! unat (m2 (tiles (the_map s') ! t)))
            = nat (northern_tile ?m t (m4 (tiles ?m ! t))))"
  proof (intro allI impI)
    fix t assume t: "t < ?N" "offset_cell ?m t"
    let ?nt = "northern_tile ?m t (m4 (tiles ?m ! t))"
    have o: "0 \<le> ?nt \<and> tile_type (tiles ?m ! nat ?nt) = MP_OBJECT
        \<and> m2 (tiles (the_map s') ! t) = m2 (tiles (the_map s') ! nat ?nt)"
      using inv t unfolding objects_made_def by blast
    have "nat ?nt < ?N"
      using northern_tile_le [of ?m t "m4 (tiles ?m ! t)"] t(1) by linarith
    then have "location_tile (object_pool s' ! unat (m2 (tiles (the_map s') ! t))) = nat ?nt"
      if "root_cell ?m (nat ?nt)"
      using roots [OF _ that] o by simp
    with o show "0 \<le> ?nt \<and> tile_type (tiles ?m ! nat ?nt) = MP_OBJECT
        \<and> m2 (tiles (the_map s') ! t) = m2 (tiles (the_map s') ! nat ?nt)
        \<and> (root_cell ?m (nat ?nt) \<longrightarrow>
            location_tile (object_pool s' ! unat (m2 (tiles (the_map s') ! t))) = nat ?nt)"
      by blast
  qed
next
  let ?m = "the_map s"
  let ?N = "MapSize ?m"
  assume a: "length (filter (root_cell ?m) [0..<?N]) \<le> object_pool_capacity E
    \<and> list_all
        (\<lambda>t. offset_cell ?m t \<longrightarrow>
           0 \<le> northern_tile ?m t (m4 (tiles ?m ! t))
           \<and> nat (northern_tile ?m t (m4 (tiles ?m ! t))) < ?N
           \<and> tile_type (tiles ?m ! nat (northern_tile ?m t (m4 (tiles ?m ! t)))) = MP_OBJECT)
        [0..<?N]"
  then have north: "0 \<le> northern_tile ?m t (m4 (tiles ?m ! t))
      \<and> nat (northern_tile ?m t (m4 (tiles ?m ! t))) < length (tiles ?m)
      \<and> tile_type (tiles ?m ! nat (northern_tile ?m t (m4 (tiles ?m ! t)))) = MP_OBJECT"
    if "t < length (tiles ?m)" "offset_cell ?m t" for t
    using that assms(5) by (simp add: list_all_iff)
  have "\<exists>s''. for_all_object_tiles (MakeObject K E) s [0..<?N] = Inr s''"
    using for_all_object_tiles_succeeds
      [OF objects_made_start [OF assms(2)] assms(3,4) _ north, of ?N K] a assms(5)
    by simp
  then show "\<exists>s''. MakeObjects147 K E stv s = Inr s''"
    using assms(1,2) by (simp add: MakeObjects147_def)
qed

theorem objects_for_object_tiles_witness:
  "\<exists>s'. MakeObjects147 sample_enums object_env \<lparr>major = 100, minor = None\<rparr>
          \<lparr>the_map = object_map, object_pool = [], type_count = (\<lambda>t. 0)\<rparr> = Inr s'
     \<and> map location_tile (object_pool s') = [9, 30]
     \<and> location_tile (object_pool s' ! unat (m2 (tiles (the_map s') ! 30))) = 30
     \<and> m2 (tiles (the_map s') ! 18) = m2 (tiles (the_map s') ! 9)
     \<and> location_tile (object_pool s' ! unat (m2 (tiles (the_map s') ! 18))) = 9"
proof -
  let ?s = "\<lparr>the_map = object_map, object_pool = [], type_count = (\<lambda>t. 0::nat)\<rparr>"
  let ?v = "\<lparr>major = 100, minor = None\<rparr>"
  have size: "MapSize object_map = 64"
    by (simp add: MapSize_def object_map_def)
  have cells: "tiles object_map ! 9 = object_tile 4 0x00"
    "tiles object_map ! 18 = object_tile 4 0x11"
    "tiles object_map ! 30 = object_tile 1 0x00"
    by (simp_all add: object_map_def)
  have n18: "northern_tile object_map 18 0x11 = 9"
    by (simp add: northern_tile_def TileXY_def GB_def object_map_def)
  have kinds: "root_cell object_map 9" "root_cell object_map 30" "offset_cell object_map 18"
    by (simp_all add: root_cell_def offset_cell_def cells object_tile_def clear_tile_def)
  have hyps: "IsSavegameVersionBefore ?v 147 0" "object_pool ?s = []"
    "0 < num_towns object_env" "object_pool_capacity object_env \<le> 65536"
    "length (tiles (the_map ?s)) = MapSize (the_map ?s)"
    by (simp_all add: IsSavegameVersionBefore_def object_env_def object_map_def MapSize_def)
  have roots: "filter (root_cell object_map) [0..<64] = [9, 30]"
    by code_simp
  have norths: "list_all
      (\<lambda>t. offset_cell object_map t \<longrightarrow>
         0 \<le> northern_tile object_map t (m4 (tiles object_map ! t))
         \<and> nat (northern_tile object_map t (m4 (tiles object_map ! t))) < 64
         \<and> tile_type (tiles object_map
               ! nat (northern_tile object_map t (m4 (tiles object_map ! t))))
             = MP_OBJECT)
      [0..<64]"
    by code_simp
  note inst = objects_for_object_tiles [OF hyps, of sample_enums]
  from inst [of ?s] roots norths obtain s' where
    run: "MakeObjects147 sample_enums object_env ?v ?s = Inr s'"
    by (auto simp: size object_env_def)
  note made = inst [of s', THEN conjunct1, THEN mp, OF run]
  have pool: "map location_tile (object_pool s') = [9, 30]"
    using made [THEN conjunct1] by (simp add: size roots)
  have "location_tile (object_pool s' ! unat (m2 (tiles (the_map s') ! 30))) = 30"
    using made [THEN conjunct2, THEN conjunct2, THEN conjunct1, rule_format, of 30] kinds(2)
    by (simp add: size)
  moreover have "m2 (tiles (the_map s') ! 18) = m2 (tiles (the_map s') ! 9)
    \<and> location_tile (object_pool s' ! unat (m2 (tiles (the_map s') ! 18))) = 9"
    using made [THEN conjunct2, THEN conjunct2, THEN conjunct2, rule_format, of 18]
      kinds(1,3) n18
    by (auto simp: size cells object_tile_def)
  ultimately show ?thesis
    using run pool by (intro exI [of _ s']) auto
qed

section \<open>Properties of the order of statements in AfterLoadGame\<close>





















section \<open>A snapshot of the newest version\<close>




end
